theory Spec2Isabelle
  imports Main "HOL-Library.AList"
begin

section \<open>Python values\<close>

text \<open>
  The conversation data of the chat client is what \<^verbatim>\<open>json.loads\<close> returns and
  \<^verbatim>\<open>json.dump\<close> accepts: None, booleans, integers, strings, lists and dictionaries with
  string keys. Floating-point numbers are outside the model. A dictionary is kept as the
  list of its items in insertion order (a Python dictionary has no key twice); a string is
  the list of its code points, each below 256.
\<close>

datatype json =
    JNull
  | JBool bool
  | JInt int
  | JStr string
  | JArr "json list"
  | JObj "(string \<times> json) list"

text \<open>
  The exceptions of Python that are not derived from \<^verbatim>\<open>Exception\<close>: a clause
  \<^verbatim>\<open>except Exception\<close> does not catch them.
\<close>

datatype base_exception =
    SystemExit
  | KeyboardInterrupt
  | GeneratorExit

text \<open>
  The exceptions the modelled code can meet. \<open>OtherError\<close> carries \<^verbatim>\<open>str(e)\<close>. All
  but the last are derived from \<^verbatim>\<open>Exception\<close>.
\<close>

datatype exn =
    AttributeError
  | TypeError
  | KeyError
  | JSONDecodeError
  | UnicodeDecodeError
  | FileNotFoundError
  | OSError
  | OtherError string
  | NotException base_exception

text \<open>Truth value of a Python object, as \<^verbatim>\<open>if x:\<close> reads it.\<close>

fun truthy :: "json \<Rightarrow> bool" where
  "truthy JNull = False"
| "truthy (JBool b) = b"
| "truthy (JInt i) = (i \<noteq> 0)"
| "truthy (JStr s) = (s \<noteq> [])"
| "truthy (JArr xs) = (xs \<noteq> [])"
| "truthy (JObj kvs) = (kvs \<noteq> [])"

text \<open>\<^verbatim>\<open>d.get(k, default)\<close> on a dictionary.\<close>

definition get_item :: "(string \<times> json) list \<Rightarrow> string \<Rightarrow> json \<Rightarrow> json" where
  "get_item kvs k dflt = (case map_of kvs k of Some v \<Rightarrow> v | None \<Rightarrow> dflt)"

text \<open>
  \<^verbatim>\<open>x.get(k, default)\<close> on any object: only a dictionary has the method, every other
  value raises AttributeError.
\<close>

fun py_get :: "json \<Rightarrow> string \<Rightarrow> json \<Rightarrow> exn + json" where
  "py_get (JObj kvs) k dflt = Inr (get_item kvs k dflt)"
| "py_get _ k dflt = Inl AttributeError"

text \<open>\<^verbatim>\<open>needle in hay\<close> on two strings: the substring test.\<close>

fun py_in_str :: "string \<Rightarrow> string \<Rightarrow> bool" where
  "py_in_str needle [] = (needle = [])"
| "py_in_str needle (c # cs) = (take (length needle) (c # cs) = needle \<or> py_in_str needle cs)"

text \<open>
  \<^verbatim>\<open>k in x\<close> for a string \<open>k\<close>: a key test on a dictionary, a substring test on a
  string, a membership test on a list, and a TypeError on None, a boolean or an integer.
\<close>

fun py_in :: "string \<Rightarrow> json \<Rightarrow> exn + bool" where
  "py_in k (JObj kvs) = Inr (map_of kvs k \<noteq> None)"
| "py_in k (JStr s) = Inr (py_in_str k s)"
| "py_in k (JArr xs) = Inr (JStr k \<in> set xs)"
| "py_in k _ = Inl TypeError"

text \<open>\<^verbatim>\<open>x[k]\<close> for a string \<open>k\<close>: only a dictionary can be indexed by a string.\<close>

fun py_getitem :: "json \<Rightarrow> string \<Rightarrow> exn + json" where
  "py_getitem (JObj kvs) k = (case map_of kvs k of Some v \<Rightarrow> Inr v | None \<Rightarrow> Inl KeyError)"
| "py_getitem _ k = Inl TypeError"

text \<open>
  The elements \<^verbatim>\<open>list.extend(x)\<close> appends: the items of a list, the characters of a
  string, the keys of a dictionary; other values are not iterable.
\<close>

fun py_iter :: "json \<Rightarrow> exn + json list" where
  "py_iter (JArr xs) = Inr xs"
| "py_iter (JStr s) = Inr (map (\<lambda>c. JStr [c]) s)"
| "py_iter (JObj kvs) = Inr (map (\<lambda>kv. JStr (fst kv)) kvs)"
| "py_iter _ = Inl TypeError"

text \<open>\<^verbatim>\<open>str.strip()\<close>: the code points below 256 for which \<^verbatim>\<open>str.isspace\<close> holds.\<close>

definition py_isspace :: "char \<Rightarrow> bool" where
  "py_isspace c = ((of_char c :: nat) \<in> {9, 10, 11, 12, 13, 28, 29, 30, 31, 32, 133, 160})"

definition strip :: "string \<Rightarrow> string" where
  "strip s = rev (dropWhile py_isspace (rev (dropWhile py_isspace s)))"

section \<open>The JSON encoder of the standard library\<close>

text \<open>
  \<^verbatim>\<open>json.dumps(v)\<close> and \<^verbatim>\<open>json.dumps(v, indent=2)\<close> with the defaults of the library:
  \<^verbatim>\<open>ensure_ascii\<close> is on, the separators are \<^verbatim>\<open>", "\<close> and \<^verbatim>\<open>": "\<close> without an
  indent and \<^verbatim>\<open>","\<close> and \<^verbatim>\<open>": "\<close> with one.
\<close>

fun digits :: "nat \<Rightarrow> string" where
  "digits n = (if n < 10 then [''0123456789'' ! n]
               else digits (n div 10) @ [''0123456789'' ! (n mod 10)])"

definition show_int :: "int \<Rightarrow> string" where
  "show_int i = (if i < 0 then CHR ''-'' # digits (nat (- i)) else digits (nat i))"

definition hex_digit :: "nat \<Rightarrow> char" where
  "hex_digit n = ''0123456789abcdef'' ! n"

definition escape_char :: "char \<Rightarrow> string" where
  "escape_char c =
     (if c = CHR 0x22 then [CHR 0x5C, CHR 0x22]
      else if c = CHR 0x5C then [CHR 0x5C, CHR 0x5C]
      else if c = CHR 0x0A then [CHR 0x5C, CHR ''n'']
      else if c = CHR 0x0D then [CHR 0x5C, CHR ''r'']
      else if c = CHR 0x09 then [CHR 0x5C, CHR ''t'']
      else if c = CHR 0x08 then [CHR 0x5C, CHR ''b'']
      else if c = CHR 0x0C then [CHR 0x5C, CHR ''f'']
      else if 0x20 \<le> (of_char c :: nat) \<and> (of_char c :: nat) \<le> 0x7E then [c]
      else [CHR 0x5C, CHR ''u'', CHR ''0'', CHR ''0'',
            hex_digit ((of_char c :: nat) div 16), hex_digit ((of_char c :: nat) mod 16)])"

definition encode_string :: "string \<Rightarrow> string" where
  "encode_string s = CHR 0x22 # concat (map escape_char s) @ [CHR 0x22]"

text \<open>The line break and indentation that opens a nesting level, empty without an indent.\<close>

definition newline_indent :: "nat option \<Rightarrow> nat \<Rightarrow> string" where
  "newline_indent ind lvl =
     (case ind of None \<Rightarrow> [] | Some n \<Rightarrow> CHR 0x0A # replicate (n * lvl) CHR '' '')"

definition item_separator :: "nat option \<Rightarrow> string" where
  "item_separator ind = (case ind of None \<Rightarrow> '', '' | Some n \<Rightarrow> '','')"

fun join :: "string \<Rightarrow> string list \<Rightarrow> string" where
  "join sep [] = []"
| "join sep [x] = x"
| "join sep (x # y # ys) = x @ sep @ join sep (y # ys)"

fun encode :: "nat option \<Rightarrow> nat \<Rightarrow> json \<Rightarrow> string" where
  "encode ind lvl JNull = ''null''"
| "encode ind lvl (JBool b) = (if b then ''true'' else ''false'')"
| "encode ind lvl (JInt i) = show_int i"
| "encode ind lvl (JStr s) = encode_string s"
| "encode ind lvl (JArr xs) =
     (if xs = [] then ''[]''
      else ''['' @ newline_indent ind (Suc lvl)
           @ join (item_separator ind @ newline_indent ind (Suc lvl))
                  (map (encode ind (Suc lvl)) xs)
           @ newline_indent ind lvl @ '']'')"
| "encode ind lvl (JObj kvs) =
     (if kvs = [] then ''{}''
      else ''{'' @ newline_indent ind (Suc lvl)
           @ join (item_separator ind @ newline_indent ind (Suc lvl))
                  (map (\<lambda>(k, v). encode_string k @ '': '' @ encode ind (Suc lvl) v) kvs)
           @ newline_indent ind lvl @ ''}'')"

definition json_dumps :: "nat option \<Rightarrow> json \<Rightarrow> string" where
  "json_dumps ind v = encode ind 0 v"

section \<open>The JSON decoder of the standard library\<close>

text \<open>
  \<^verbatim>\<open>json.loads\<close> as the scanner of the library reads a document, from left to right:
  white space is skipped around the document, after an opening bracket or brace, around
  the colon and the comma and before the closing bracket or brace; a string ends at the
  first quote that is not escaped and holds no raw control character; a number is an
  optional minus sign and either a zero or digits that start with a digit from 1 to 9.

  The values of the model have no floating-point number and no code point above 255. So
  the scanner has three results: the value it read and the text after it; the error of
  the library (JSONDecodeError) where the text read so far cannot be continued; and
  \<open>Outside\<close>, where it meets a number with a fraction or an exponent, one of the constants
  NaN and Infinity, or the escape of a code point above 255. The library goes on after
  these, the model stops there and says nothing about the document.
\<close>

datatype 'a scan =
    Scanned 'a string
  | BadSyntax
  | Outside

definition is_ws :: "char \<Rightarrow> bool" where
  "is_ws c = (c = CHR '' '' \<or> c = CHR 0x09 \<or> c = CHR 0x0A \<or> c = CHR 0x0D)"


definition is_digit :: "char \<Rightarrow> bool" where
  "is_digit c = (48 \<le> (of_char c :: nat) \<and> (of_char c :: nat) \<le> 57)"

definition digit_value :: "char \<Rightarrow> nat" where
  "digit_value c = of_char c - 48"


definition hex_value :: "char \<Rightarrow> nat option" where
  "hex_value c =
     (if 48 \<le> (of_char c :: nat) \<and> (of_char c :: nat) \<le> 57 then Some (of_char c - 48)
      else if 97 \<le> (of_char c :: nat) \<and> (of_char c :: nat) \<le> 102 then Some (of_char c - 87)
      else if 65 \<le> (of_char c :: nat) \<and> (of_char c :: nat) \<le> 70 then Some (of_char c - 55)
      else None)"

text \<open>
  The four hexadecimal digits of an escape \<^verbatim>\<open>\uXXXX\<close>: the code point, when it is
  below 256.
\<close>

definition decode_uXXXX :: "string \<Rightarrow> char scan" where
  "decode_uXXXX esc =
     (case map hex_value esc of
        [Some a, Some b, Some c, Some d] \<Rightarrow>
          if a = 0 \<and> b = 0 then Scanned (char_of (16 * c + d)) [] else Outside
      | other \<Rightarrow> BadSyntax)"

definition unescape :: "char \<Rightarrow> char option" where
  "unescape e =
     (if e = CHR 0x22 then Some (CHR 0x22)
      else if e = CHR 0x5C then Some (CHR 0x5C)
      else if e = CHR ''/'' then Some (CHR ''/'')
      else if e = CHR ''b'' then Some (CHR 0x08)
      else if e = CHR ''f'' then Some (CHR 0x0C)
      else if e = CHR ''n'' then Some (CHR 0x0A)
      else if e = CHR ''r'' then Some (CHR 0x0D)
      else if e = CHR ''t'' then Some (CHR 0x09)
      else None)"

text \<open>A character in front of the string a scan has read.\<close>

definition prepend :: "char \<Rightarrow> string scan \<Rightarrow> string scan" where
  "prepend c x = (case x of Scanned t r \<Rightarrow> Scanned (c # t) r | other \<Rightarrow> other)"

text \<open>
  \<^verbatim>\<open>scanstring\<close>: the text after the opening quote, up to the closing quote; the string
  it denotes and the text that follows it.
\<close>

fun scanstring :: "string \<Rightarrow> string scan" where
  "scanstring [] = BadSyntax"
| "scanstring (c # cs) =
     (if c = CHR 0x22 then Scanned [] cs
      else if c = CHR 0x5C then
        (case cs of
           [] \<Rightarrow> BadSyntax
         | e # es \<Rightarrow>
             if e = CHR ''u'' then
               (case decode_uXXXX (take 4 es) of
                  Scanned ch r \<Rightarrow> prepend ch (scanstring (drop 4 es))
                | BadSyntax \<Rightarrow> BadSyntax
                | Outside \<Rightarrow> Outside)
             else
               (case unescape e of
                  None \<Rightarrow> BadSyntax
                | Some ch \<Rightarrow> prepend ch (scanstring es)))
      else if (of_char c :: nat) < 0x20 then BadSyntax
      else prepend c (scanstring cs))"










section \<open>The tool registry (tools.py)\<close>

text \<open>
  What calling a registered handler as \<^verbatim>\<open>tool_function(**arguments)\<close> does: it raises an
  exception \<open>e\<close> derived from \<^verbatim>\<open>Exception\<close> (kept as \<^verbatim>\<open>str(e)\<close>), it raises an
  exception that is not derived from \<^verbatim>\<open>Exception\<close> (a handler that calls
  \<^verbatim>\<open>sys.exit\<close> raises SystemExit), it returns a value \<^verbatim>\<open>json.dumps\<close> accepts, or it
  returns a value \<^verbatim>\<open>json.dumps\<close> rejects (kept as the text of the error raised there).
  The call covers the binding of the keyword arguments, so a handler that does not accept
  the arguments it is given raises.
\<close>

datatype outcome =
    Raises string
  | Escapes base_exception
  | Returns json
  | ReturnsUnserializable string

record tool_info =
  t_name :: string
  t_description :: string
  t_function :: "json \<Rightarrow> outcome"
  t_parameters :: json

type_synonym registry = "(string \<times> tool_info) list"

definition register_tool ::
  "string \<Rightarrow> string \<Rightarrow> (json \<Rightarrow> outcome) \<Rightarrow> json \<Rightarrow> registry \<Rightarrow> registry" where
  "register_tool name description func parameters tools =
     AList.update name
       \<lparr>t_name = name, t_description = description, t_function = func,
        t_parameters = parameters\<rparr> tools"

text \<open>
  The registry a \<^verbatim>\<open>ToolRegistry()\<close> starts with. The sample tool asks a public market
  data service, so its behaviour is a parameter.
\<close>

definition default_tools :: "(json \<Rightarrow> outcome) \<Rightarrow> registry" where
  "default_tools get_top_cryptocurrencies =
     register_tool ''get_top_cryptocurrencies''
       ''Get the top 10 cryptocurrencies by market cap with current prices and 24h change''
       get_top_cryptocurrencies
       (JObj [(''type'', JStr ''object''), (''properties'', JObj []), (''required'', JArr [])])
       []"

definition get_tool_definitions :: "registry \<Rightarrow> json list" where
  "get_tool_definitions tools =
     map (\<lambda>(tool_name, info).
            JObj [(''type'', JStr ''function''),
                  (''function'',
                     JObj [(''name'', JStr (t_name info)),
                           (''description'', JStr (t_description info)),
                           (''parameters'', t_parameters info)])])
         tools"

definition not_found_payload :: "string \<Rightarrow> string" where
  "not_found_payload shown =
     json_dumps None
       (JObj [(''error'', JStr (''Tool '' @ [CHR 0x27] @ shown @ [CHR 0x27] @ '' not found''))])"

definition failure_payload :: "string \<Rightarrow> string" where
  "failure_payload e = json_dumps None (JObj [(''error'', JStr (''Error executing tool: '' @ e))])"

text \<open>
  \<^verbatim>\<open>execute_tool(tool_name, arguments)\<close>. The name comes out of a decoded tool call, so
  it is any JSON value: the membership test \<^verbatim>\<open>tool_name not in self.tools\<close> stands
  outside the \<^verbatim>\<open>try\<close> and raises TypeError for an unhashable name (a list or a
  dictionary); a name that is not a string is no key of the registry. The handler is
  called under \<^verbatim>\<open>except Exception\<close>: an exception of the handler that is derived from
  \<^verbatim>\<open>Exception\<close> becomes an error payload, any other one leaves \<^verbatim>\<open>execute_tool\<close>.
\<close>

definition execute_tool :: "registry \<Rightarrow> json \<Rightarrow> json \<Rightarrow> exn + string" where
  "execute_tool tools tool_name arguments =
     (case tool_name of
        JArr xs \<Rightarrow> Inl TypeError
      | JObj kvs \<Rightarrow> Inl TypeError
      | JNull \<Rightarrow> Inr (not_found_payload ''None'')
      | JBool b \<Rightarrow> Inr (not_found_payload (if b then ''True'' else ''False''))
      | JInt i \<Rightarrow> Inr (not_found_payload (show_int i))
      | JStr n \<Rightarrow>
          (case map_of tools n of
             None \<Rightarrow> Inr (not_found_payload n)
           | Some info \<Rightarrow>
               (case t_function info arguments of
                  Returns result \<Rightarrow> Inr (json_dumps (Some 2) result)
                | ReturnsUnserializable e \<Rightarrow> Inr (failure_payload e)
                | Raises e \<Rightarrow> Inr (failure_payload e)
                | Escapes x \<Rightarrow> Inl (NotException x))))"

section \<open>Saving a chat (ChatHistory.save_chat)\<close>

text \<open>
  The file system as the program sees it: the content of each file by its path, and
  whether \<^verbatim>\<open>open(path, 'w')\<close> succeeds there (the directory exists and can be written).
\<close>

record filesystem =
  files :: "string \<rightharpoonup> string"
  writable :: "string \<Rightarrow> bool"

text \<open>\<^verbatim>\<open>os.path.join\<close> of two components on a POSIX system.\<close>

definition path_join :: "string \<Rightarrow> string \<Rightarrow> string" where
  "path_join a b =
     (if take 1 b = ''/'' then b
      else if a = [] \<or> last a = CHR ''/'' then a @ b
      else a @ ''/'' @ b)"

text \<open>\<^verbatim>\<open>model.replace(':', '_')\<close>\<close>

definition replace_colons :: "string \<Rightarrow> string" where
  "replace_colons model = map (\<lambda>c. if c = CHR '':'' then CHR ''_'' else c) model"

definition chat_data :: "string \<Rightarrow> string \<Rightarrow> json list \<Rightarrow> json" where
  "chat_data model timestamp msgs =
     JObj [(''model'', JStr model), (''timestamp'', JStr timestamp), (''messages'', JArr msgs)]"

text \<open>
  \<^verbatim>\<open>save_chat(messages, model)\<close> in the directory \<open>history_dir\<close>; \<open>timestamp\<close> is what
  \<^verbatim>\<open>datetime.now().strftime("%Y%m%d_%H%M%S")\<close> gives at the call. It returns the path of
  the file and the file system after the write, or the error of \<^verbatim>\<open>open\<close>.
\<close>

definition save_chat ::
  "string \<Rightarrow> string \<Rightarrow> json list \<Rightarrow> string \<Rightarrow> filesystem \<Rightarrow> exn + (string \<times> filesystem)" where
  "save_chat history_dir timestamp msgs model fs =
     (let filename = ''chat_'' @ replace_colons model @ ''_'' @ timestamp @ ''.json'';
          filepath = path_join history_dir filename;
          data = chat_data model timestamp msgs
      in if writable fs filepath
         then Inr (filepath, fs\<lparr>files := (files fs)(filepath \<mapsto> json_dumps (Some 2) data)\<rparr>)
         else Inl OSError)"

section \<open>Loading a chat (ChatHistory.load_chat)\<close>


section \<open>The transport client (OllamaClient.chat_stream)\<close>

text \<open>
  What \<^verbatim>\<open>json.loads(line)\<close> does with one line of the response: it returns the decoded
  chunk, it raises \<^verbatim>\<open>json.JSONDecodeError\<close>, or it raises another exception derived
  from \<^verbatim>\<open>Exception\<close> (a line of bytes that is not valid UTF-8 raises UnicodeDecodeError
  before any JSON is read). The decoder is a parameter of the client.
\<close>

datatype decoded =
    Chunk json
  | Undecodable
  | Crash exn

text \<open>
  What the server does with one request: \<^verbatim>\<open>requests.post\<close> or
  \<^verbatim>\<open>raise_for_status\<close> raises a RequestException \<open>e\<close> (connection refused, timeout,
  a status outside 2xx; kept as \<^verbatim>\<open>str(e)\<close>), or the body arrives as the lines
  \<^verbatim>\<open>iter_lines\<close> yields, after which the body ends or the connection breaks with a
  RequestException.
\<close>

datatype response =
    RequestFailed string
  | Body "string list" "string option"

definition error_fragment :: "string \<Rightarrow> json" where
  "error_fragment e =
     JObj [(''error'', JBool True),
           (''message'', JStr (''Error communicating with Ollama: '' @ e))]"

text \<open>
  The loop over \<^verbatim>\<open>response.iter_lines()\<close>: the chunks yielded, and the exception that
  leaves the generator if one does.
\<close>

fun read_lines :: "(string \<Rightarrow> decoded) \<Rightarrow> string list \<Rightarrow> json list \<times> exn option" where
  "read_lines loads [] = ([], None)"
| "read_lines loads (line # rest) =
     (if line = [] then read_lines loads rest
      else (case loads line of
              Chunk chunk \<Rightarrow> (chunk # fst (read_lines loads rest), snd (read_lines loads rest))
            | Undecodable \<Rightarrow> read_lines loads rest
            | Crash e \<Rightarrow> ([], Some e)))"

text \<open>
  The generator \<^verbatim>\<open>chat_stream\<close>, as the list of the chunks it yields and the exception
  it ends with, if any. The consumer reads the list from the front and may stop early.
\<close>

definition chat_stream :: "(string \<Rightarrow> decoded) \<Rightarrow> response \<Rightarrow> json list \<times> exn option" where
  "chat_stream loads resp =
     (case resp of
        RequestFailed e \<Rightarrow> ([error_fragment e], None)
      | Body lines broken \<Rightarrow>
          (case read_lines loads lines of
             (chunks, Some x) \<Rightarrow> (chunks, Some x)
           | (chunks, None) \<Rightarrow>
               (case broken of
                  None \<Rightarrow> (chunks, None)
                | Some e \<Rightarrow> (chunks @ [error_fragment e], None))))"

text \<open>The body of the POST request to \<^verbatim>\<open>/api/chat\<close>.\<close>

definition chat_payload :: "string option \<Rightarrow> json list \<Rightarrow> json list \<Rightarrow> json" where
  "chat_payload model msgs tools =
     JObj ([(''model'', (case model of None \<Rightarrow> JNull | Some m \<Rightarrow> JStr m)),
            (''messages'', JArr msgs),
            (''stream'', JBool True)]
           @ (if tools \<noteq> [] then [(''tools'', JArr tools)] else []))"

section \<open>The chat application (OllamaChatApp)\<close>

text \<open>
  The calls that change what the window shows are kept as a log, in the order in which
  the Tk event loop runs them. The text of an f-string is kept as its parts: literal
  text, \<^verbatim>\<open>str\<close> of a value and \<^verbatim>\<open>str\<close> of an exception.
\<close>

datatype piece =
    Lit string
  | StrOf json
  | StrOfExn exn

datatype ui_call =
    StartAssistantMessage
  | AddToCurrentMessage "piece list" string
  | AddMessageToDisplay string string string
  | ShowWarning string string
  | ShowInfo string string

text \<open>What leaves the application: a chat request with its body, a call of a tool.\<close>

datatype event =
    ChatRequest json
  | ExecuteTool json json

text \<open>
  The state of the application. \<open>input_text\<close> is what \<^verbatim>\<open>input_text.get("1.0", tk.END)\<close>
  returns and \<open>model_var\<close> what \<^verbatim>\<open>model_var.get()\<close> returns; \<open>send_button\<close> says whether
  the button is enabled.
\<close>

record app =
  messages :: "json list"
  current_model :: "string option"
  is_streaming :: bool
  tool_registry :: registry
  history_dir :: string
  disk :: filesystem
  model_var :: string
  input_text :: string
  send_button :: bool
  status_label :: "string \<times> string"
  ui :: "ui_call list"
  trace :: "event list"

text \<open>
  What the world gives one turn: the decoder of response lines, the server's answer to the
  first chat request and to the second one (read only if the second request is made), and
  the time stamp of the clock when the turn is saved.
\<close>

record env =
  decode :: "string \<Rightarrow> decoded"
  initial :: response
  resumed :: response
  clock :: string

definition add_to_current_message :: "piece list \<Rightarrow> string \<Rightarrow> app \<Rightarrow> app" where
  "add_to_current_message txt tag s = s\<lparr>ui := ui s @ [AddToCurrentMessage txt tag]\<rparr>"

definition start_assistant_message :: "app \<Rightarrow> app" where
  "start_assistant_message s = s\<lparr>ui := ui s @ [StartAssistantMessage]\<rparr>"

definition log_event :: "event \<Rightarrow> app \<Rightarrow> app" where
  "log_event e s = s\<lparr>trace := trace s @ [e]\<rparr>"

definition append_message :: "json \<Rightarrow> app \<Rightarrow> app" where
  "append_message m s = s\<lparr>messages := messages s @ [m]\<rparr>"

definition user_message :: "string \<Rightarrow> json" where
  "user_message content = JObj [(''role'', JStr ''user''), (''content'', JStr content)]"

definition assistant_message :: "string \<Rightarrow> json" where
  "assistant_message content = JObj [(''role'', JStr ''assistant''), (''content'', JStr content)]"

definition assistant_tool_message :: "string \<Rightarrow> json list \<Rightarrow> json" where
  "assistant_tool_message content tool_calls =
     JObj [(''role'', JStr ''assistant''), (''content'', JStr content),
           (''tool_calls'', JArr tool_calls)]"

definition tool_message :: "string \<Rightarrow> json" where
  "tool_message content = JObj [(''role'', JStr ''tool''), (''content'', JStr content)]"

text \<open>
  \<^verbatim>\<open>finish_streaming\<close>: the controls are enabled again and the chat is saved; an
  exception of \<^verbatim>\<open>save_chat\<close> is printed and dropped (without a model,
  \<^verbatim>\<open>model.replace\<close> raises AttributeError).
\<close>

definition finish_streaming :: "string \<Rightarrow> app \<Rightarrow> app" where
  "finish_streaming timestamp s =
     (let s1 = s\<lparr>is_streaming := False, send_button := True,
                  status_label := (''Ready'', ''green'')\<rparr>
      in if length (messages s1) > 0
         then (case current_model s1 of
                 None \<Rightarrow> s1
               | Some model \<Rightarrow>
                   (case save_chat (history_dir s1) timestamp (messages s1) model (disk s1) of
                      Inl e \<Rightarrow> s1
                    | Inr (filepath, fs) \<Rightarrow> s1\<lparr>disk := fs\<rparr>))
         else s1)"

definition error_note :: "piece \<Rightarrow> piece list" where
  "error_note what = [Lit (CHR 0x0A # ''[Error: ''), what, Lit '']'']"

text \<open>
  The text content of a message of a chunk, shared by both streaming loops:
  \<^verbatim>\<open>if "content" in msg and msg["content"]: response_text += content\<close>, shown as it
  arrives.
\<close>

definition take_content :: "json \<Rightarrow> string \<Rightarrow> app \<Rightarrow> exn + (string \<times> app)" where
  "take_content msg response_text s =
     (case py_in ''content'' msg of
        Inl e \<Rightarrow> Inl e
      | Inr False \<Rightarrow> Inr (response_text, s)
      | Inr True \<Rightarrow>
          (case py_getitem msg ''content'' of
             Inl e \<Rightarrow> Inl e
           | Inr content \<Rightarrow>
               if \<not> truthy content then Inr (response_text, s)
               else (case content of
                       JStr c \<Rightarrow>
                         Inr (response_text @ c, add_to_current_message [Lit c] ''assistant'' s)
                     | _ \<Rightarrow> Inl TypeError)))"

text \<open>
  \<^verbatim>\<open>if "tool_calls" in msg and msg["tool_calls"]: tool_calls.extend(msg["tool_calls"])\<close>
\<close>

definition take_tool_calls :: "json \<Rightarrow> json list \<Rightarrow> exn + json list" where
  "take_tool_calls msg tool_calls =
     (case py_in ''tool_calls'' msg of
        Inl e \<Rightarrow> Inl e
      | Inr False \<Rightarrow> Inr tool_calls
      | Inr True \<Rightarrow>
          (case py_getitem msg ''tool_calls'' of
             Inl e \<Rightarrow> Inl e
           | Inr requested \<Rightarrow>
               if \<not> truthy requested then Inr tool_calls
               else (case py_iter requested of
                       Inl e \<Rightarrow> Inl e
                     | Inr items \<Rightarrow> Inr (tool_calls @ items))))"

text \<open>
  One pass of a streaming loop: it goes on to the next chunk, it leaves the loop
  (\<^verbatim>\<open>break\<close>), or an exception leaves it. The window keeps what was shown before the
  exception.
\<close>

datatype 'a flow =
    Next 'a app
  | Stop 'a app
  | Throw exn app

text \<open>The body of the loop of \<^verbatim>\<open>stream_response\<close>.\<close>

fun on_chunk :: "json \<Rightarrow> string \<Rightarrow> json list \<Rightarrow> app \<Rightarrow> (string \<times> json list) flow" where
  "on_chunk (JObj kvs) response_text tool_calls s =
     (if truthy (get_item kvs ''error'' JNull)
      then Stop (response_text, tool_calls)
             (add_to_current_message (error_note (StrOf (get_item kvs ''message'' JNull)))
                ''error'' s)
      else
        (case map_of kvs ''message'' of
           None \<Rightarrow>
             if truthy (get_item kvs ''done'' (JBool False))
             then Stop (response_text, tool_calls) s
             else Next (response_text, tool_calls) s
         | Some msg \<Rightarrow>
             (case take_content msg response_text s of
                Inl e \<Rightarrow> Throw e s
              | Inr (response_text', s') \<Rightarrow>
                  (case take_tool_calls msg tool_calls of
                     Inl e \<Rightarrow> Throw e s'
                   | Inr tool_calls' \<Rightarrow>
                       if truthy (get_item kvs ''done'' (JBool False))
                       then Stop (response_text', tool_calls') s'
                       else Next (response_text', tool_calls') s'))))"
| "on_chunk chunk response_text tool_calls s = Throw AttributeError s"

text \<open>
  The loop of \<^verbatim>\<open>stream_response\<close> over the chunks of the generator; the second argument
  is the exception the generator ends with, met only if every chunk was read.
\<close>

fun consume ::
  "json list \<Rightarrow> exn option \<Rightarrow> string \<Rightarrow> json list \<Rightarrow> app \<Rightarrow> exn \<times> app + (string \<times> json list) \<times> app" where
  "consume [] None response_text tool_calls s = Inr ((response_text, tool_calls), s)"
| "consume [] (Some e) response_text tool_calls s = Inl (e, s)"
| "consume (chunk # rest) ending response_text tool_calls s =
     (case on_chunk chunk response_text tool_calls s of
        Next (response_text', tool_calls') s' \<Rightarrow> consume rest ending response_text' tool_calls' s'
      | Stop acc s' \<Rightarrow> Inr (acc, s')
      | Throw e s' \<Rightarrow> Inl (e, s'))"

text \<open>The body of the loop of \<^verbatim>\<open>stream_final_response\<close>: tool calls are not read.\<close>

fun on_final_chunk :: "json \<Rightarrow> string \<Rightarrow> app \<Rightarrow> string flow" where
  "on_final_chunk (JObj kvs) response_text s =
     (if truthy (get_item kvs ''error'' JNull)
      then Stop response_text
             (add_to_current_message (error_note (StrOf (get_item kvs ''message'' JNull)))
                ''error'' s)
      else
        (case map_of kvs ''message'' of
           None \<Rightarrow>
             if truthy (get_item kvs ''done'' (JBool False))
             then Stop response_text s
             else Next response_text s
         | Some msg \<Rightarrow>
             (case take_content msg response_text s of
                Inl e \<Rightarrow> Throw e s
              | Inr (response_text', s') \<Rightarrow>
                  if truthy (get_item kvs ''done'' (JBool False))
                  then Stop response_text' s'
                  else Next response_text' s')))"
| "on_final_chunk chunk response_text s = Throw AttributeError s"

fun consume_final :: "json list \<Rightarrow> exn option \<Rightarrow> string \<Rightarrow> app \<Rightarrow> exn \<times> app + string \<times> app" where
  "consume_final [] None response_text s = Inr (response_text, s)"
| "consume_final [] (Some e) response_text s = Inl (e, s)"
| "consume_final (chunk # rest) ending response_text s =
     (case on_final_chunk chunk response_text s of
        Next response_text' s' \<Rightarrow> consume_final rest ending response_text' s'
      | Stop response_text' s' \<Rightarrow> Inr (response_text', s')
      | Throw e s' \<Rightarrow> Inl (e, s'))"

text \<open>
  \<^verbatim>\<open>stream_final_response\<close>, the thread started after the tool calls: one more chat
  request with the history as it is now, then \<^verbatim>\<open>finish_streaming\<close> on every path.
\<close>

definition stream_final_response :: "env \<Rightarrow> app \<Rightarrow> app" where
  "stream_final_response w s =
     (let s1 = add_to_current_message [Lit [CHR 0x0A]] ''assistant'' s;
          s2 = log_event (ChatRequest (chat_payload (current_model s1) (messages s1)
                                         (get_tool_definitions (tool_registry s1)))) s1
      in case consume_final (fst (chat_stream (decode w) (resumed w)))
                (snd (chat_stream (decode w) (resumed w))) [] s2 of
           Inl (e, s3) \<Rightarrow>
             finish_streaming (clock w)
               (add_to_current_message (error_note (StrOfExn e)) ''error'' s3)
         | Inr (response_text, s3) \<Rightarrow>
             finish_streaming (clock w)
               (if response_text \<noteq> [] then append_message (assistant_message response_text) s3
                else s3))"

text \<open>
  The loop of \<^verbatim>\<open>handle_tool_calls\<close> over the tool calls, one after the other. It runs
  as a callback of the Tk event loop: an exception ends the callback where it is raised
  and is printed by Tk, so the loop returns the state reached and the exception.
\<close>

fun dispatch :: "json list \<Rightarrow> app \<Rightarrow> app \<times> exn option" where
  "dispatch [] s = (s, None)"
| "dispatch (tool_call # rest) s =
     (case py_get tool_call ''function'' (JObj []) of
        Inl e \<Rightarrow> (s, Some e)
      | Inr function_info \<Rightarrow>
          (case py_get function_info ''name'' (JStr ''unknown'') of
             Inl e \<Rightarrow> (s, Some e)
           | Inr tool_name \<Rightarrow>
               (case py_get function_info ''arguments'' (JObj []) of
                  Inl e \<Rightarrow> (s, Some e)
                | Inr arguments \<Rightarrow>
                    (let s1 = add_to_current_message
                                [Lit (CHR 0x0A # CHR 0x0A # ''[Calling tool: ''), StrOf tool_name,
                                 Lit '']''] ''tool'' s;
                         s2 = log_event (ExecuteTool tool_name arguments) s1
                     in case execute_tool (tool_registry s2) tool_name arguments of
                          Inl e \<Rightarrow> (s2, Some e)
                        | Inr result \<Rightarrow>
                            dispatch rest
                              (append_message (tool_message result)
                                 (add_to_current_message
                                    [Lit [CHR 0x0A], Lit result, Lit [CHR 0x0A]] ''code'' s2))))))"

text \<open>
  \<^verbatim>\<open>handle_tool_calls\<close>: the assistant message with its tool calls is saved, each tool
  is executed, and the thread of the final response is started. When the loop raises, no
  thread is started and \<^verbatim>\<open>finish_streaming\<close> is never called.
\<close>

definition handle_tool_calls :: "env \<Rightarrow> json list \<Rightarrow> string \<Rightarrow> app \<Rightarrow> app" where
  "handle_tool_calls w tool_calls assistant_text s =
     (case dispatch tool_calls
             (append_message (assistant_tool_message assistant_text tool_calls) s) of
        (s', Some e) \<Rightarrow> s'
      | (s', None) \<Rightarrow> stream_final_response w s')"

text \<open>\<^verbatim>\<open>stream_response\<close>, the thread started by \<^verbatim>\<open>send_message\<close>.\<close>

definition stream_response :: "env \<Rightarrow> app \<Rightarrow> app" where
  "stream_response w s =
     (let tools = get_tool_definitions (tool_registry s);
          s1 = start_assistant_message s;
          s2 = log_event (ChatRequest (chat_payload (current_model s1) (messages s1) tools)) s1
      in case consume (fst (chat_stream (decode w) (initial w)))
                (snd (chat_stream (decode w) (initial w))) [] [] s2 of
           Inl (e, s3) \<Rightarrow>
             finish_streaming (clock w)
               (add_to_current_message (error_note (StrOfExn e)) ''error'' s3)
         | Inr ((response_text, tool_calls), s3) \<Rightarrow>
             if tool_calls \<noteq> [] then handle_tool_calls w tool_calls response_text s3
             else finish_streaming (clock w)
                    (if response_text \<noteq> []
                     then append_message (assistant_message response_text) s3
                     else s3))"

text \<open>
  \<^verbatim>\<open>send_message\<close>: the state when it returns, and whether it started the thread of
  \<^verbatim>\<open>stream_response\<close>. A text widget keeps a final line break, which is what
  \<^verbatim>\<open>get\<close> returns after the input is cleared.
\<close>

definition falsy_model :: "string option \<Rightarrow> bool" where
  "falsy_model m = (case m of None \<Rightarrow> True | Some name \<Rightarrow> name = [])"

definition send_message :: "app \<Rightarrow> app \<times> bool" where
  "send_message s =
     (let message = strip (input_text s) in
      if message = [] then (s, False)
      else
        (let s1 = (if falsy_model (current_model s)
                   then s\<lparr>current_model := Some (model_var s)\<rparr> else s)
         in if falsy_model (current_model s1)
            then (s1\<lparr>ui := ui s1 @ [ShowWarning ''No Model'' ''Please select a model first'']\<rparr>,
                  False)
            else if is_streaming s1
            then (s1\<lparr>ui := ui s1 @ [ShowInfo ''Please Wait'' ''Already processing a message'']\<rparr>,
                  False)
            else
              ((append_message (user_message message)
                  (s1\<lparr>input_text := [CHR 0x0A],
                      ui := ui s1 @ [AddMessageToDisplay ''User'' message ''user'']\<rparr>))
                 \<lparr>is_streaming := True, send_button := False,
                  status_label := (''Thinking...'', ''orange'')\<rparr>,
               True)))"

text \<open>One submission: \<^verbatim>\<open>send_message\<close> and, when it starts one, the streaming thread.\<close>

definition submit :: "env \<Rightarrow> app \<Rightarrow> app" where
  "submit w s =
     (case send_message s of
        (s', True) \<Rightarrow> stream_response w s'
      | (s', False) \<Rightarrow> s')"

section \<open>Reading fragments and tool calls\<close>

text \<open>
  A chunk of the wire format \<^verbatim>\<open>{message?: {content?, tool_calls?}, done, error?}\<close>: the
  message, when present, is a dictionary whose content is a string and whose tool calls
  are a list (each may be missing or null).
\<close>

fun text_of :: "json option \<Rightarrow> string" where
  "text_of (Some (JStr t)) = t"
| "text_of other = []"

fun list_of :: "json option \<Rightarrow> json list" where
  "list_of (Some (JArr xs)) = xs"
| "list_of other = []"

fun text_or_absent :: "json option \<Rightarrow> bool" where
  "text_or_absent None = True"
| "text_or_absent (Some JNull) = True"
| "text_or_absent (Some (JStr t)) = True"
| "text_or_absent other = False"

fun list_or_absent :: "json option \<Rightarrow> bool" where
  "list_or_absent None = True"
| "list_or_absent (Some JNull) = True"
| "list_or_absent (Some (JArr xs)) = True"
| "list_or_absent other = False"

fun fragment :: "json \<Rightarrow> bool" where
  "fragment (JObj kvs) =
     (case map_of kvs ''message'' of
        None \<Rightarrow> True
      | Some (JObj m) \<Rightarrow>
          text_or_absent (map_of m ''content'') \<and> list_or_absent (map_of m ''tool_calls'')
      | Some other \<Rightarrow> False)"
| "fragment other = False"

text \<open>The content delta and the tool calls a fragment carries, and its two markers.\<close>

fun delta :: "json \<Rightarrow> string" where
  "delta (JObj kvs) =
     (case map_of kvs ''message'' of
        Some (JObj m) \<Rightarrow> text_of (map_of m ''content'')
      | other \<Rightarrow> [])"
| "delta other = []"

fun requested :: "json \<Rightarrow> json list" where
  "requested (JObj kvs) =
     (case map_of kvs ''message'' of
        Some (JObj m) \<Rightarrow> list_of (map_of m ''tool_calls'')
      | other \<Rightarrow> [])"
| "requested other = []"

fun is_done :: "json \<Rightarrow> bool" where
  "is_done (JObj kvs) = truthy (get_item kvs ''done'' (JBool False))"
| "is_done other = False"

fun is_error :: "json \<Rightarrow> bool" where
  "is_error (JObj kvs) = truthy (get_item kvs ''error'' JNull)"
| "is_error other = False"

text \<open>
  A stream that completes: fragments of the wire format, none of them an error, of which
  the last one, and only the last one, says done.
\<close>

definition completes :: "json list \<Rightarrow> bool" where
  "completes cs =
     (cs \<noteq> [] \<and> (\<forall>c\<in>set cs. fragment c \<and> \<not> is_error c)
      \<and> (\<forall>c\<in>set (butlast cs). \<not> is_done c) \<and> is_done (last cs))"

text \<open>What the window is given for the content deltas of some fragments.\<close>

definition shown :: "json list \<Rightarrow> ui_call list" where
  "shown cs =
     map (\<lambda>c. AddToCurrentMessage [Lit (delta c)] ''assistant'')
       (filter (\<lambda>c. delta c \<noteq> []) cs)"

text \<open>
  The parts of a tool call as \<^verbatim>\<open>handle_tool_calls\<close> reads them:
  \<^verbatim>\<open>tool_call.get("function", {})\<close>, its name (\<^verbatim>\<open>"unknown"\<close> when missing) and its
  arguments (empty when missing).
\<close>

fun call_function :: "json \<Rightarrow> json" where
  "call_function (JObj kvs) = get_item kvs ''function'' (JObj [])"
| "call_function other = JNull"

definition call_name :: "json \<Rightarrow> json" where
  "call_name tool_call =
     (case call_function tool_call of
        JObj f \<Rightarrow> get_item f ''name'' (JStr ''unknown'')
      | other \<Rightarrow> JNull)"

definition call_arguments :: "json \<Rightarrow> json" where
  "call_arguments tool_call =
     (case call_function tool_call of
        JObj f \<Rightarrow> get_item f ''arguments'' (JObj [])
      | other \<Rightarrow> JNull)"

fun hashable :: "json \<Rightarrow> bool" where
  "hashable (JArr xs) = False"
| "hashable (JObj kvs) = False"
| "hashable other = True"

text \<open>
  A tool call that can be dispatched: a dictionary whose function, when present, is a
  dictionary, with a name that can be looked up in the registry.
\<close>

fun dispatchable :: "json \<Rightarrow> bool" where
  "dispatchable (JObj kvs) =
     (case get_item kvs ''function'' (JObj []) of
        JObj f \<Rightarrow> hashable (get_item f ''name'' (JStr ''unknown''))
      | other \<Rightarrow> False)"
| "dispatchable other = False"

text \<open>
  A tool call whose execution stays inside \<^verbatim>\<open>execute_tool\<close>: the handler it names, if
  there is one, returns or raises an exception derived from \<^verbatim>\<open>Exception\<close>.
\<close>

definition contained :: "registry \<Rightarrow> json \<Rightarrow> bool" where
  "contained tools tool_call =
     (case call_name tool_call of
        JStr n \<Rightarrow>
          (case map_of tools n of
             None \<Rightarrow> True
           | Some info \<Rightarrow>
               (case t_function info (call_arguments tool_call) of
                  Escapes x \<Rightarrow> False
                | other \<Rightarrow> True))
      | other \<Rightarrow> True)"

text \<open>The string \<^verbatim>\<open>execute_tool\<close> returns for a tool call.\<close>

definition tool_result :: "registry \<Rightarrow> json \<Rightarrow> string" where
  "tool_result tools tool_call =
     (case execute_tool tools (call_name tool_call) (call_arguments tool_call) of
        Inr payload \<Rightarrow> payload
      | Inl e \<Rightarrow> [])"

definition call_event :: "json \<Rightarrow> event" where
  "call_event tool_call = ExecuteTool (call_name tool_call) (call_arguments tool_call)"

definition call_shown :: "registry \<Rightarrow> json \<Rightarrow> ui_call list" where
  "call_shown tools tool_call =
     [AddToCurrentMessage
        [Lit (CHR 0x0A # CHR 0x0A # ''[Calling tool: ''), StrOf (call_name tool_call), Lit '']'']
        ''tool'',
      AddToCurrentMessage
        [Lit [CHR 0x0A], Lit (tool_result tools tool_call), Lit [CHR 0x0A]] ''code'']"

text \<open>The request that opens a stream from a state.\<close>

definition request_of :: "app \<Rightarrow> json list \<Rightarrow> event" where
  "request_of s msgs =
     ChatRequest (chat_payload (current_model s) msgs (get_tool_definitions (tool_registry s)))"

text \<open>
  The fragments of the first stream of a turn, the text they carry and the tool calls
  they request, in the order of arrival.
\<close>

definition first_stream :: "env \<Rightarrow> json list" where
  "first_stream w = fst (chat_stream (decode w) (initial w))"

definition content_of :: "json list \<Rightarrow> string" where
  "content_of cs = concat (map delta cs)"

definition tool_calls_of :: "json list \<Rightarrow> json list" where
  "tool_calls_of cs = concat (map requested cs)"

text \<open>
  A stream that breaks: fragments of the wire format that are neither done nor an error,
  and then an error fragment (what follows it is never read).
\<close>

definition breaks_after :: "json list \<Rightarrow> json list \<Rightarrow> bool" where
  "breaks_after before cs =
     (before = takeWhile (\<lambda>c. \<not> is_error c) cs \<and> length before < length cs
      \<and> (\<forall>c\<in>set before. fragment c \<and> \<not> is_done c))"

text \<open>The error fragment that ends such a stream, and the note the window shows for it.\<close>

definition error_message :: "json \<Rightarrow> json" where
  "error_message c = (case c of JObj kvs \<Rightarrow> get_item kvs ''message'' JNull | other \<Rightarrow> JNull)"

definition error_shown :: "json \<Rightarrow> ui_call" where
  "error_shown c = AddToCurrentMessage (error_note (StrOf (error_message c))) ''error''"

section \<open>Example inputs\<close>

text \<open>A decoder of response lines given by a table; every other line is malformed.\<close>

definition table_decoder :: "(string \<times> json) list \<Rightarrow> string \<Rightarrow> decoded" where
  "table_decoder table line =
     (case map_of table line of Some chunk \<Rightarrow> Chunk chunk | None \<Rightarrow> Undecodable)"

definition content_chunk :: "string \<Rightarrow> bool \<Rightarrow> json" where
  "content_chunk t d =
     JObj [(''message'', JObj [(''role'', JStr ''assistant''), (''content'', JStr t)]),
           (''done'', JBool d)]"

text \<open>A handler without parameters, as the sample tool is: any keyword argument raises.\<close>

definition example_handler :: "json \<Rightarrow> outcome" where
  "example_handler arguments =
     (case arguments of
        JObj [] \<Rightarrow>
          Returns (JObj [(''success'', JBool True), (''data'', JArr []),
                         (''timestamp'', JStr ''now'')])
      | other \<Rightarrow> Raises ''unexpected keyword argument'')"

definition example_tools :: registry where
  "example_tools = default_tools example_handler"

text \<open>
  A handler that ends the program with \<^verbatim>\<open>sys.exit()\<close>, and a registry that has it
  beside the sample tool.
\<close>

definition exiting_handler :: "json \<Rightarrow> outcome" where
  "exiting_handler arguments = Escapes SystemExit"

definition exiting_tools :: registry where
  "exiting_tools =
     register_tool ''quit'' ''Close the application'' exiting_handler
       (JObj [(''type'', JStr ''object''), (''properties'', JObj []), (''required'', JArr [])])
       example_tools"

text \<open>
  Tool calls: one for the sample tool, one without a function, one whose function is
  null, one for the tool that ends the program.
\<close>

definition crypto_call :: json where
  "crypto_call =
     JObj [(''function'',
              JObj [(''name'', JStr ''get_top_cryptocurrencies''), (''arguments'', JObj [])])]"

definition bare_call :: json where
  "bare_call = JObj [(''id'', JStr ''call_1'')]"

definition null_function_call :: json where
  "null_function_call = JObj [(''function'', JNull)]"

definition quit_call :: json where
  "quit_call = JObj [(''function'', JObj [(''name'', JStr ''quit''), (''arguments'', JObj [])])]"

definition tool_call_chunk :: "json \<Rightarrow> bool \<Rightarrow> json" where
  "tool_call_chunk tool_call d =
     JObj [(''message'',
              JObj [(''role'', JStr ''assistant''), (''content'', JStr []),
                    (''tool_calls'', JArr [tool_call])]),
           (''done'', JBool d)]"

definition example_decoder :: "string \<Rightarrow> decoded" where
  "example_decoder =
     table_decoder [(''line 1'', content_chunk ''4'' False),
                    (''line 2'', content_chunk [] True),
                    (''line 3'', tool_call_chunk crypto_call False),
                    (''line 4'', tool_call_chunk bare_call False),
                    (''line 5'', tool_call_chunk quit_call False)]"

text \<open>
  The same decoder on lines of bytes: a line that holds the byte 0xFF is not UTF-8, and
  \<^verbatim>\<open>json.loads\<close> raises UnicodeDecodeError on it.
\<close>

definition byte_decoder :: "string \<Rightarrow> decoded" where
  "byte_decoder line =
     (if CHR 0xFF \<in> set line then Crash UnicodeDecodeError else example_decoder line)"

text \<open>The application before and after the question of the example scenario is sent.\<close>

definition example_disk :: filesystem where
  "example_disk = \<lparr>files = Map.empty, writable = (\<lambda>path. True)\<rparr>"

definition idle_app :: app where
  "idle_app =
     \<lparr>messages = [], current_model = None, is_streaming = False,
      tool_registry = example_tools, history_dir = ''/home/user/.ollama_chat/history'',
      disk = example_disk, model_var = ''llama2'',
      input_text = ''What is 2+2?'' @ [CHR 0x0A], send_button = True,
      status_label = (''Ready'', ''green''), ui = [], trace = []\<rparr>"

definition asked_app :: app where
  "asked_app = fst (send_message idle_app)"

text \<open>The same application with the registry that has the tool that ends the program.\<close>

definition quitting_app :: app where
  "quitting_app = asked_app\<lparr>tool_registry := exiting_tools\<rparr>"

text \<open>
  Servers: one that answers 4 and is done; one that only says it is done; one that asks
  for the sample tool and then answers; one whose connection breaks after it asked for
  the tool; one whose connection breaks after the first content; one that asks for the
  sample tool and then for a tool without a name; one that asks for the tool that ends
  the program and then for the sample tool.
\<close>

definition reply_env :: env where
  "reply_env =
     \<lparr>decode = example_decoder, initial = Body [''line 1'', ''line 2''] None,
      resumed = RequestFailed ''not asked'', clock = ''20240101_120000''\<rparr>"

definition silent_env :: env where
  "silent_env =
     \<lparr>decode = example_decoder, initial = Body [''line 2''] None,
      resumed = RequestFailed ''not asked'', clock = ''20240101_120000''\<rparr>"

definition tool_env :: env where
  "tool_env =
     \<lparr>decode = example_decoder, initial = Body [''line 3'', ''line 2''] None,
      resumed = Body [''line 3'', ''line 1'', ''line 2''] None, clock = ''20240101_120000''\<rparr>"

definition broken_tool_env :: env where
  "broken_tool_env =
     \<lparr>decode = example_decoder, initial = Body [''line 3''] (Some ''Connection broken''),
      resumed = Body [''line 1'', ''line 2''] None, clock = ''20240101_120000''\<rparr>"

definition broken_env :: env where
  "broken_env =
     \<lparr>decode = example_decoder, initial = Body [''line 1''] (Some ''Connection broken''),
      resumed = RequestFailed ''not asked'', clock = ''20240101_120000''\<rparr>"

definition two_tools_env :: env where
  "two_tools_env =
     \<lparr>decode = example_decoder, initial = Body [''line 3'', ''line 4'', ''line 2''] None,
      resumed = Body [''line 1'', ''line 2''] None, clock = ''20240101_120000''\<rparr>"

definition quit_env :: env where
  "quit_env =
     \<lparr>decode = example_decoder, initial = Body [''line 5'', ''line 3'', ''line 2''] None,
      resumed = Body [''line 1'', ''line 2''] None, clock = ''20240101_120000''\<rparr>"


section \<open>Properties of the transport client\<close>


lemma read_lines_skip:
  "loads bad = Undecodable \<Longrightarrow>
   read_lines loads (before @ bad # after) = read_lines loads (before @ after)"
  by (induction before) (auto split: decoded.splits)

text \<open>
  C5 (as amended). A response line on which \<^verbatim>\<open>json.loads\<close> raises JSONDecodeError is
  skipped and the stream goes on: the generator yields exactly what it yields for the
  same body without that line, so every valid fragment before and after it is still
  yielded, in order.
\<close>

theorem chat_stream_skips_malformed_line:
  assumes "loads bad = Undecodable"
  shows "chat_stream loads (Body (before @ bad # after) broken)
         = chat_stream loads (Body (before @ after) broken)"
  using assms by (simp add: chat_stream_def read_lines_skip)

theorem chat_stream_skips_malformed_line_witness:
  "example_decoder ''garbage'' = Undecodable
   \<and> chat_stream example_decoder (Body [''line 1'', ''garbage'', ''line 2''] None)
       = ([content_chunk ''4'' False, content_chunk [] True], None)"
  using chat_stream_skips_malformed_line
          [of example_decoder "''garbage''" "[''line 1'']" "[''line 2'']" None]
  by (simp add: example_decoder_def table_decoder_def chat_stream_def)

text \<open>
  The claim as stated fails for a line that fails to decode with another exception than
  JSONDecodeError. The second line of the body below is the single byte 0xFF, on which
  \<^verbatim>\<open>json.loads\<close> raises UnicodeDecodeError: only \<^verbatim>\<open>json.JSONDecodeError\<close> is caught
  around it, so the exception leaves the generator, and the valid fragment of the third
  line is never yielded.
\<close>

theorem chat_stream_invalid_utf8_counterexample:
  "byte_decoder [CHR 0xFF] = Crash UnicodeDecodeError
   \<and> byte_decoder ''line 1'' = Chunk (content_chunk ''4'' False)
   \<and> byte_decoder ''line 2'' = Chunk (content_chunk [] True)
   \<and> chat_stream byte_decoder (Body [''line 1'', [CHR 0xFF], ''line 2''] None)
       = ([content_chunk ''4'' False], Some UnicodeDecodeError)"
  by (simp add: byte_decoder_def example_decoder_def table_decoder_def chat_stream_def)

section \<open>Properties of the tool registry\<close>

text \<open>
  C6 (as amended). For every tool name (a string) and every argument value: when the
  name is not registered, \<^verbatim>\<open>execute_tool\<close> returns the JSON text of
  \<^verbatim>\<open>{"error": "Tool '<name>' not found"}\<close>; when the registered handler raises an
  exception \<open>e\<close> derived from \<^verbatim>\<open>Exception\<close>, or returns a value that
  \<^verbatim>\<open>json.dumps\<close> rejects with the error \<open>e\<close>, it returns the JSON text of
  \<^verbatim>\<open>{"error": "Error executing tool: <e>"}\<close>; when the handler returns a value, it
  returns the JSON text of that value. So \<^verbatim>\<open>execute_tool\<close> returns a string and does
  not raise, unless the handler raises an exception that is not derived from
  \<^verbatim>\<open>Exception\<close>.
\<close>

theorem execute_tool_returns:
  "(map_of tools n = None \<longrightarrow>
      execute_tool tools (JStr n) arguments
        = Inr (json_dumps None
                 (JObj [(''error'',
                         JStr (''Tool '' @ [CHR 0x27] @ n @ [CHR 0x27] @ '' not found''))])))
   \<and> (\<forall>info. map_of tools n = Some info \<longrightarrow>
         (\<forall>e. t_function info arguments = Raises e
                \<or> t_function info arguments = ReturnsUnserializable e \<longrightarrow>
              execute_tool tools (JStr n) arguments
                = Inr (json_dumps None
                         (JObj [(''error'', JStr (''Error executing tool: '' @ e))])))
         \<and> (\<forall>result. t_function info arguments = Returns result \<longrightarrow>
               execute_tool tools (JStr n) arguments = Inr (json_dumps (Some 2) result)))
   \<and> ((\<forall>info x. map_of tools n = Some info \<longrightarrow> t_function info arguments \<noteq> Escapes x) \<longrightarrow>
        (\<exists>payload. execute_tool tools (JStr n) arguments = Inr payload))"
proof (intro conjI impI allI)
  assume "map_of tools n = None"
  then show "execute_tool tools (JStr n) arguments
        = Inr (json_dumps None
                 (JObj [(''error'',
                         JStr (''Tool '' @ [CHR 0x27] @ n @ [CHR 0x27] @ '' not found''))]))"
    by (simp add: execute_tool_def not_found_payload_def)
next
  fix info e
  assume "map_of tools n = Some info"
    and "t_function info arguments = Raises e
         \<or> t_function info arguments = ReturnsUnserializable e"
  then show "execute_tool tools (JStr n) arguments
        = Inr (json_dumps None (JObj [(''error'', JStr (''Error executing tool: '' @ e))]))"
    by (auto simp: execute_tool_def failure_payload_def)
next
  fix info result
  assume "map_of tools n = Some info" and "t_function info arguments = Returns result"
  then show "execute_tool tools (JStr n) arguments = Inr (json_dumps (Some 2) result)"
    by (simp add: execute_tool_def)
next
  assume a: "\<forall>info x. map_of tools n = Some info \<longrightarrow> t_function info arguments \<noteq> Escapes x"
  show "\<exists>payload. execute_tool tools (JStr n) arguments = Inr payload"
  proof (cases "map_of tools n")
    case None
    then show ?thesis by (simp add: execute_tool_def)
  next
    case (Some info)
    with a show ?thesis
      by (cases "t_function info arguments") (simp_all add: execute_tool_def)
  qed
qed

lemma example_tools_get_weather: "map_of example_tools ''get_weather'' = None"
  by (simp add: example_tools_def default_tools_def register_tool_def)

lemma example_tools_sample:
  "\<exists>info. map_of example_tools ''get_top_cryptocurrencies'' = Some info
      \<and> t_function info = example_handler"
  by (simp add: example_tools_def default_tools_def register_tool_def)

theorem execute_tool_returns_witness:
  "map_of example_tools ''get_weather'' = None
   \<and> execute_tool example_tools (JStr ''get_weather'') (JObj [])
       = Inr (''{'' @ [CHR 0x22] @ ''error'' @ [CHR 0x22] @ '': '' @ [CHR 0x22] @ ''Tool ''
              @ [CHR 0x27] @ ''get_weather'' @ [CHR 0x27] @ '' not found'' @ [CHR 0x22] @ ''}'')
   \<and> (\<exists>info. map_of example_tools ''get_top_cryptocurrencies'' = Some info
         \<and> t_function info (JObj [(''limit'', JInt 5)]) = Raises ''unexpected keyword argument''
         \<and> t_function info (JObj []) = Returns (JObj [(''success'', JBool True),
                                     (''data'', JArr []), (''timestamp'', JStr ''now'')]))
   \<and> execute_tool example_tools (JStr ''get_top_cryptocurrencies'') (JObj [(''limit'', JInt 5)])
       = Inr (''{'' @ [CHR 0x22] @ ''error'' @ [CHR 0x22] @ '': '' @ [CHR 0x22]
              @ ''Error executing tool: unexpected keyword argument'' @ [CHR 0x22] @ ''}'')
   \<and> execute_tool example_tools (JStr ''get_top_cryptocurrencies'') (JObj [])
       = Inr (''{'' @ [CHR 0x0A] @ ''  '' @ [CHR 0x22] @ ''success'' @ [CHR 0x22] @ '': true,''
              @ [CHR 0x0A] @ ''  '' @ [CHR 0x22] @ ''data'' @ [CHR 0x22] @ '': [],''
              @ [CHR 0x0A] @ ''  '' @ [CHR 0x22] @ ''timestamp'' @ [CHR 0x22] @ '': ''
              @ [CHR 0x22] @ ''now'' @ [CHR 0x22] @ [CHR 0x0A] @ ''}'')
   \<and> (\<exists>payload. execute_tool example_tools (JStr ''get_top_cryptocurrencies'')
                   (JObj [(''limit'', JInt 5)]) = Inr payload)"
proof -
  note a = example_tools_get_weather
  from example_tools_sample obtain info where
    i: "map_of example_tools ''get_top_cryptocurrencies'' = Some info"
       "t_function info = example_handler" by blast
  have r: "t_function info (JObj [(''limit'', JInt 5)]) = Raises ''unexpected keyword argument''"
    by (simp add: i(2) example_handler_def)
  have v: "t_function info (JObj []) = Returns (JObj [(''success'', JBool True),
             (''data'', JArr []), (''timestamp'', JStr ''now'')])"
    by (simp add: i(2) example_handler_def)
  have b: "\<exists>info. map_of example_tools ''get_top_cryptocurrencies'' = Some info
         \<and> t_function info (JObj [(''limit'', JInt 5)]) = Raises ''unexpected keyword argument''
         \<and> t_function info (JObj []) = Returns (JObj [(''success'', JBool True),
                                     (''data'', JArr []), (''timestamp'', JStr ''now'')])"
    using i(1) r v by blast
  from a execute_tool_returns [of example_tools "''get_weather''" "JObj []"]
  have c: "execute_tool example_tools (JStr ''get_weather'') (JObj [])
           = Inr (json_dumps None
                    (JObj [(''error'',
                            JStr (''Tool '' @ [CHR 0x27] @ ''get_weather'' @ [CHR 0x27]
                                  @ '' not found''))]))"
    by blast
  from i(1) r execute_tool_returns
                [of example_tools "''get_top_cryptocurrencies''" "JObj [(''limit'', JInt 5)]"]
  have d: "execute_tool example_tools (JStr ''get_top_cryptocurrencies'')
             (JObj [(''limit'', JInt 5)])
           = Inr (json_dumps None
                    (JObj [(''error'',
                            JStr (''Error executing tool: '' @ ''unexpected keyword argument''))]))"
    by blast
  from i(1) v execute_tool_returns [of example_tools "''get_top_cryptocurrencies''" "JObj []"]
  have e: "execute_tool example_tools (JStr ''get_top_cryptocurrencies'') (JObj [])
           = Inr (json_dumps (Some 2)
                    (JObj [(''success'', JBool True), (''data'', JArr []),
                           (''timestamp'', JStr ''now'')]))"
    by blast
  have c': "execute_tool example_tools (JStr ''get_weather'') (JObj [])
       = Inr (''{'' @ [CHR 0x22] @ ''error'' @ [CHR 0x22] @ '': '' @ [CHR 0x22] @ ''Tool ''
              @ [CHR 0x27] @ ''get_weather'' @ [CHR 0x27] @ '' not found'' @ [CHR 0x22] @ ''}'')"
    unfolding c
    by (simp add: json_dumps_def encode_string_def escape_char_def newline_indent_def
          item_separator_def)
  have d': "execute_tool example_tools (JStr ''get_top_cryptocurrencies'')
              (JObj [(''limit'', JInt 5)])
       = Inr (''{'' @ [CHR 0x22] @ ''error'' @ [CHR 0x22] @ '': '' @ [CHR 0x22]
              @ ''Error executing tool: unexpected keyword argument'' @ [CHR 0x22] @ ''}'')"
    unfolding d
    by (simp add: json_dumps_def encode_string_def escape_char_def newline_indent_def
          item_separator_def)
  have e': "execute_tool example_tools (JStr ''get_top_cryptocurrencies'') (JObj [])
       = Inr (''{'' @ [CHR 0x0A] @ ''  '' @ [CHR 0x22] @ ''success'' @ [CHR 0x22] @ '': true,''
              @ [CHR 0x0A] @ ''  '' @ [CHR 0x22] @ ''data'' @ [CHR 0x22] @ '': [],''
              @ [CHR 0x0A] @ ''  '' @ [CHR 0x22] @ ''timestamp'' @ [CHR 0x22] @ '': ''
              @ [CHR 0x22] @ ''now'' @ [CHR 0x22] @ [CHR 0x0A] @ ''}'')"
    unfolding e
    by (simp add: json_dumps_def encode_string_def escape_char_def newline_indent_def
          item_separator_def numeral_2_eq_2)
  have "\<forall>info x. map_of example_tools ''get_top_cryptocurrencies'' = Some info
          \<longrightarrow> t_function info (JObj [(''limit'', JInt 5)]) \<noteq> Escapes x"
    using i(1) r by simp
  with execute_tool_returns
         [of example_tools "''get_top_cryptocurrencies''" "JObj [(''limit'', JInt 5)]"]
  have f: "\<exists>payload. execute_tool example_tools (JStr ''get_top_cryptocurrencies'')
                   (JObj [(''limit'', JInt 5)]) = Inr payload"
    by blast
  from a b c' d' e' f show ?thesis by (intro conjI)
qed

text \<open>
  The claim as stated fails for a handler that raises an exception which is not derived
  from \<^verbatim>\<open>Exception\<close>: the handler below is registered under the name \<^verbatim>\<open>quit\<close> and
  raises SystemExit, which \<^verbatim>\<open>except Exception\<close> does not catch, so the exception
  leaves \<^verbatim>\<open>execute_tool\<close> and no string is returned.
\<close>

theorem execute_tool_exit_counterexample:
  "(\<exists>info. map_of exiting_tools ''quit'' = Some info
       \<and> t_function info (JObj []) = Escapes SystemExit)
   \<and> execute_tool exiting_tools (JStr ''quit'') (JObj []) = Inl (NotException SystemExit)"
  by (simp add: exiting_tools_def register_tool_def exiting_handler_def execute_tool_def
        example_tools_def default_tools_def)

section \<open>The streaming loops\<close>

lemma take_content_text:
  "text_or_absent (map_of m ''content'') \<Longrightarrow>
   take_content (JObj m) t s =
     Inr (t @ text_of (map_of m ''content''),
          if text_of (map_of m ''content'') = [] then s
          else add_to_current_message [Lit (text_of (map_of m ''content''))] ''assistant'' s)"
  by (cases "map_of m ''content''" rule: text_or_absent.cases) (auto simp: take_content_def)

lemma take_tool_calls_list:
  "list_or_absent (map_of m ''tool_calls'') \<Longrightarrow>
   take_tool_calls (JObj m) calls = Inr (calls @ list_of (map_of m ''tool_calls''))"
  by (cases "map_of m ''tool_calls''" rule: list_or_absent.cases)
     (auto simp: take_tool_calls_def)

lemma shown_Cons: "shown (c # cs) = shown [c] @ shown cs"
  by (simp add: shown_def)

lemma shown_append: "shown (xs @ ys) = shown xs @ shown ys"
  by (simp add: shown_def)

lemma on_chunk_fragment:
  assumes "fragment c" "\<not> is_error c"
  shows "on_chunk c t calls s =
     (if is_done c then Stop (t @ delta c, calls @ requested c) (s\<lparr>ui := ui s @ shown [c]\<rparr>)
      else Next (t @ delta c, calls @ requested c) (s\<lparr>ui := ui s @ shown [c]\<rparr>))"
proof (cases c)
  case (JObj kvs)
  show ?thesis
  proof (cases "map_of kvs ''message''")
    case None
    with JObj assms show ?thesis by (simp add: shown_def)
  next
    case (Some msg)
    with JObj assms obtain m where m: "msg = JObj m"
      by (cases msg) auto
    with JObj Some assms show ?thesis
      by (simp add: take_content_text take_tool_calls_list shown_def
            add_to_current_message_def)
  qed
qed (use assms in auto)

lemma consume_fragments:
  "\<forall>c\<in>set cs. fragment c \<and> \<not> is_error c \<and> \<not> is_done c \<Longrightarrow>
   consume (cs @ rest) ending t calls s =
   consume rest ending (t @ concat (map delta cs)) (calls @ concat (map requested cs))
     (s\<lparr>ui := ui s @ shown cs\<rparr>)"
proof (induction cs arbitrary: t calls s)
  case Nil
  then show ?case by (simp add: shown_def)
next
  case (Cons c cs)
  then show ?case
    by (simp add: on_chunk_fragment shown_Cons [of c cs])
qed

lemma consume_completes:
  assumes "completes cs"
  shows "consume cs ending [] [] s =
           Inr ((concat (map delta cs), concat (map requested cs)), s\<lparr>ui := ui s @ shown cs\<rparr>)"
proof -
  from assms have ne: "cs \<noteq> []" by (simp add: completes_def)
  then have cs: "cs = butlast cs @ [last cs]" by simp
  have pre: "\<forall>c\<in>set (butlast cs). fragment c \<and> \<not> is_error c \<and> \<not> is_done c"
    using assms by (auto simp: completes_def dest: in_set_butlastD)
  have lst: "fragment (last cs)" "\<not> is_error (last cs)" "is_done (last cs)"
    using assms ne by (auto simp: completes_def)
  have "consume (butlast cs @ [last cs]) ending [] [] s =
        Inr ((concat (map delta (butlast cs @ [last cs])),
              concat (map requested (butlast cs @ [last cs]))),
             s\<lparr>ui := ui s @ shown (butlast cs @ [last cs])\<rparr>)"
    unfolding consume_fragments [OF pre]
    using lst by (simp add: on_chunk_fragment shown_append)
  with cs show ?thesis by simp
qed

text \<open>An error fragment ends the loop with what was accumulated before it.\<close>

lemma consume_error:
  assumes "\<forall>c\<in>set pre. fragment c \<and> \<not> is_error c \<and> \<not> is_done c" and "is_error (JObj kvs)"
  shows "consume (pre @ JObj kvs # rest) ending [] [] s =
           Inr ((concat (map delta pre), concat (map requested pre)),
                s\<lparr>ui := ui s @ shown pre
                     @ [AddToCurrentMessage (error_note (StrOf (get_item kvs ''message'' JNull)))
                          ''error'']\<rparr>)"
  unfolding consume_fragments [OF assms(1)]
  using assms(2) by (simp add: add_to_current_message_def)

section \<open>What finishing a turn keeps\<close>

lemma messages_finish_streaming [simp]: "messages (finish_streaming ts s) = messages s"
  by (simp add: finish_streaming_def Let_def split: option.splits sum.splits prod.splits)

lemma trace_finish_streaming [simp]: "trace (finish_streaming ts s) = trace s"
  by (simp add: finish_streaming_def Let_def split: option.splits sum.splits prod.splits)

lemma is_streaming_finish_streaming [simp]: "is_streaming (finish_streaming ts s) = False"
  by (simp add: finish_streaming_def Let_def split: option.splits sum.splits prod.splits)

lemma ui_finish_streaming [simp]: "ui (finish_streaming ts s) = ui s"
  by (simp add: finish_streaming_def Let_def split: option.splits sum.splits prod.splits)

text \<open>The loop of the final response changes nothing but the window.\<close>

lemma take_content_frame:
  "take_content msg t s = Inr (t', s') \<Longrightarrow> \<exists>u. s' = s\<lparr>ui := u\<rparr>"
proof -
  assume a: "take_content msg t s = Inr (t', s')"
  have "s' = s \<or> (\<exists>c. s' = add_to_current_message [Lit c] ''assistant'' s)"
    using a unfolding take_content_def
    by (auto split: sum.splits bool.splits if_splits json.splits)
  then show ?thesis
  proof
    assume "s' = s"
    then have "s' = s\<lparr>ui := ui s\<rparr>" by simp
    then show ?thesis ..
  next
    assume "\<exists>c. s' = add_to_current_message [Lit c] ''assistant'' s"
    then show ?thesis by (auto simp: add_to_current_message_def)
  qed
qed

lemma ui_update_self: "\<exists>u. s = s\<lparr>ui := u\<rparr>"
proof
  show "s = s\<lparr>ui := ui s\<rparr>" by simp
qed

lemma on_final_chunk_frame:
  "\<exists>u. (case on_final_chunk c t s of Next a s' \<Rightarrow> s' | Stop a s' \<Rightarrow> s' | Throw e s' \<Rightarrow> s')
        = s\<lparr>ui := u\<rparr>"
proof (cases c)
  case (JObj kvs)
  show ?thesis
  proof (cases "truthy (get_item kvs ''error'' JNull)")
    case True
    with JObj show ?thesis by (auto simp: add_to_current_message_def)
  next
    case noerr: False
    show ?thesis
    proof (cases "map_of kvs ''message''")
      case None
      with JObj noerr show ?thesis using ui_update_self [of s] by auto
    next
      case (Some msg)
      show ?thesis
      proof (cases "take_content msg t s")
        case (Inl e)
        with JObj noerr Some show ?thesis using ui_update_self [of s] by auto
      next
        case (Inr p)
        obtain t' s' where p: "p = (t', s')" by (cases p)
        from take_content_frame [of msg t s t' s'] Inr p
        obtain u where "s' = s\<lparr>ui := u\<rparr>" by auto
        with JObj noerr Some Inr p show ?thesis by auto
      qed
    qed
  qed
qed (use ui_update_self [of s] in auto)

lemma consume_final_frame:
  "\<exists>u. (case consume_final cs ending t s of Inl (e, s') \<Rightarrow> s' | Inr (t', s') \<Rightarrow> s')
        = s\<lparr>ui := u\<rparr>"
proof (induction cs arbitrary: t s)
  case Nil
  then show ?case using ui_update_self [of s] by (cases ending) auto
next
  case (Cons c cs)
  from on_final_chunk_frame [of c t s] obtain u where
    u: "(case on_final_chunk c t s of Next a s' \<Rightarrow> s' | Stop a s' \<Rightarrow> s' | Throw e s' \<Rightarrow> s')
        = s\<lparr>ui := u\<rparr>" ..
  show ?case
  proof (cases "on_final_chunk c t s")
    case (Next a s1)
    with u have s1: "s1 = s\<lparr>ui := u\<rparr>" by simp
    from Cons.IH [of a s1] obtain u' where
      "(case consume_final cs ending a s1 of Inl (e, s') \<Rightarrow> s' | Inr (t', s') \<Rightarrow> s')
        = s1\<lparr>ui := u'\<rparr>" ..
    with Next s1 show ?thesis by auto
  next
    case (Stop a s1)
    with u show ?thesis by auto
  next
    case (Throw e s1)
    with u show ?thesis by auto
  qed
qed

lemma stream_final_response_trace:
  "trace (stream_final_response w s) = trace s @ [request_of s (messages s)]"
proof -
  let ?s2 = "log_event (request_of s (messages s))
               (add_to_current_message [Lit [CHR 0x0A]] ''assistant'' s)"
  let ?r = "consume_final (fst (chat_stream (decode w) (resumed w)))
              (snd (chat_stream (decode w) (resumed w))) [] ?s2"
  from consume_final_frame obtain u where
    u: "(case ?r of Inl (e, s') \<Rightarrow> s' | Inr (t', s') \<Rightarrow> s') = ?s2\<lparr>ui := u\<rparr>" ..
  show ?thesis
  proof (cases ?r)
    case (Inl p)
    then show ?thesis using u
      by (cases p) (simp add: stream_final_response_def Let_def request_of_def log_event_def
            add_to_current_message_def append_message_def)
  next
    case (Inr p)
    then show ?thesis using u
      by (cases p) (simp add: stream_final_response_def Let_def request_of_def log_event_def
            add_to_current_message_def append_message_def)
  qed
qed

lemma stream_final_response_is_streaming:
  "is_streaming (stream_final_response w s) = False"
  by (simp add: stream_final_response_def Let_def split: sum.splits prod.splits)

lemma stream_final_response_messages:
  "\<exists>finals. messages (stream_final_response w s) = messages s @ finals
     \<and> (finals = [] \<or> (\<exists>t. finals = [assistant_message t]))"
proof -
  let ?s2 = "log_event (request_of s (messages s))
               (add_to_current_message [Lit [CHR 0x0A]] ''assistant'' s)"
  let ?r = "consume_final (fst (chat_stream (decode w) (resumed w)))
              (snd (chat_stream (decode w) (resumed w))) [] ?s2"
  from consume_final_frame obtain u where
    u: "(case ?r of Inl (e, s') \<Rightarrow> s' | Inr (t', s') \<Rightarrow> s') = ?s2\<lparr>ui := u\<rparr>" ..
  show ?thesis
  proof (cases ?r)
    case (Inl p)
    then show ?thesis using u
      by (cases p) (simp add: stream_final_response_def Let_def request_of_def log_event_def
            add_to_current_message_def append_message_def)
  next
    case (Inr p)
    then show ?thesis using u
      by (cases p) (auto simp: stream_final_response_def Let_def request_of_def log_event_def
            add_to_current_message_def append_message_def)
  qed
qed

section \<open>Dispatching tool calls\<close>

lemma execute_tool_hashable:
  assumes "hashable n"
    and "\<And>name info x. n = JStr name \<Longrightarrow> map_of tools name = Some info
           \<Longrightarrow> t_function info a \<noteq> Escapes x"
  shows "\<exists>payload. execute_tool tools n a = Inr payload"
proof (cases n)
  case (JStr name)
  show ?thesis
  proof (cases "map_of tools name")
    case None
    with JStr show ?thesis by (simp add: execute_tool_def)
  next
    case (Some info)
    with JStr assms(2) [OF JStr Some] show ?thesis
      by (cases "t_function info a") (auto simp: execute_tool_def)
  qed
qed (use assms(1) in \<open>simp_all add: execute_tool_def\<close>)

text \<open>
  One pass of the loop over a tool call that can be dispatched and whose handler stays
  inside \<^verbatim>\<open>execute_tool\<close>.
\<close>

lemma dispatch_step:
  assumes "dispatchable tc \<and> contained (tool_registry s) tc"
  shows "dispatch (tc # rest) s =
           dispatch rest
             (s\<lparr>messages := messages s @ [tool_message (tool_result (tool_registry s) tc)],
                ui := ui s @ call_shown (tool_registry s) tc,
                trace := trace s @ [call_event tc]\<rparr>)"
proof -
  from assms obtain kvs where tc: "tc = JObj kvs" by (cases tc) auto
  with assms obtain f where f: "get_item kvs ''function'' (JObj []) = JObj f"
    by (cases "get_item kvs ''function'' (JObj [])") auto
  with tc assms have h: "hashable (get_item f ''name'' (JStr ''unknown''))" by simp
  have c: "t_function info (get_item f ''arguments'' (JObj [])) \<noteq> Escapes x"
    if "get_item f ''name'' (JStr ''unknown'') = JStr name"
      and "map_of (tool_registry s) name = Some info" for name info x
    using assms tc f that
    by (auto simp: contained_def call_name_def call_arguments_def split: outcome.splits)
  have "\<exists>payload. execute_tool (tool_registry s) (get_item f ''name'' (JStr ''unknown''))
          (get_item f ''arguments'' (JObj [])) = Inr payload"
    using h by (rule execute_tool_hashable) (rule c)
  then obtain payload where
    p: "execute_tool (tool_registry s) (get_item f ''name'' (JStr ''unknown''))
          (get_item f ''arguments'' (JObj [])) = Inr payload" by blast
  from tc f p show ?thesis
    apply (simp add: Let_def log_event_def add_to_current_message_def append_message_def
          tool_result_def call_name_def call_arguments_def call_shown_def call_event_def)
    apply (rule arg_cong [where f = "dispatch rest"])
    apply (rule app.equality; simp)
    done
qed

lemma dispatch_all:
  "\<forall>tc\<in>set calls. dispatchable tc \<and> contained (tool_registry s) tc \<Longrightarrow>
   dispatch calls s =
     (s\<lparr>messages := messages s @ map (\<lambda>tc. tool_message (tool_result (tool_registry s) tc)) calls,
        ui := ui s @ concat (map (call_shown (tool_registry s)) calls),
        trace := trace s @ map call_event calls\<rparr>, None)"
proof (induction calls arbitrary: s)
  case Nil
  then show ?case by simp
next
  case (Cons tc calls)
  let ?s = "s\<lparr>messages := messages s @ [tool_message (tool_result (tool_registry s) tc)],
              ui := ui s @ call_shown (tool_registry s) tc,
              trace := trace s @ [call_event tc]\<rparr>"
  from Cons.prems have d: "dispatchable tc \<and> contained (tool_registry s) tc"
    and r: "\<forall>tc\<in>set calls. dispatchable tc \<and> contained (tool_registry ?s) tc"
    by auto
  show ?case unfolding dispatch_step [OF d] Cons.IH [OF r] by simp
qed

lemma handle_tool_calls_trace:
  assumes "\<forall>tc\<in>set calls. dispatchable tc \<and> contained (tool_registry s) tc"
  shows "trace (handle_tool_calls w calls t s) =
           trace s @ map call_event calls
           @ [request_of s
                (messages s @ [assistant_tool_message t calls]
                 @ map (\<lambda>tc. tool_message (tool_result (tool_registry s) tc)) calls)]"
proof -
  from assms have a: "\<forall>tc\<in>set calls. dispatchable tc
         \<and> contained
             (tool_registry (s\<lparr>messages := messages s @ [assistant_tool_message t calls]\<rparr>)) tc"
    by simp
  show ?thesis
    by (simp add: handle_tool_calls_def dispatch_all [OF a] append_message_def
          stream_final_response_trace request_of_def)
qed

lemma handle_tool_calls_messages:
  assumes "\<forall>tc\<in>set calls. dispatchable tc \<and> contained (tool_registry s) tc"
  shows "\<exists>finals. messages (handle_tool_calls w calls t s) =
           messages s @ [assistant_tool_message t calls]
           @ map (\<lambda>tc. tool_message (tool_result (tool_registry s) tc)) calls @ finals
         \<and> (finals = [] \<or> (\<exists>t'. finals = [assistant_message t']))"
proof -
  let ?s' = "s\<lparr>messages := messages s @ [assistant_tool_message t calls]
                 @ map (\<lambda>tc. tool_message (tool_result (tool_registry s) tc)) calls,
               ui := ui s @ concat (map (call_shown (tool_registry s)) calls),
               trace := trace s @ map call_event calls\<rparr>"
  from assms have a: "\<forall>tc\<in>set calls. dispatchable tc
         \<and> contained
             (tool_registry (s\<lparr>messages := messages s @ [assistant_tool_message t calls]\<rparr>)) tc"
    by simp
  have h: "handle_tool_calls w calls t s = stream_final_response w ?s'"
    by (simp add: handle_tool_calls_def dispatch_all [OF a] append_message_def)
  from stream_final_response_messages [of w ?s'] show ?thesis
    unfolding h by auto
qed

lemma handle_tool_calls_is_streaming:
  assumes "\<forall>tc\<in>set calls. dispatchable tc \<and> contained (tool_registry s) tc"
  shows "is_streaming (handle_tool_calls w calls t s) = False"
proof -
  from assms have a: "\<forall>tc\<in>set calls. dispatchable tc
         \<and> contained
             (tool_registry (s\<lparr>messages := messages s @ [assistant_tool_message t calls]\<rparr>)) tc"
    by simp
  show ?thesis
    by (simp add: handle_tool_calls_def dispatch_all [OF a] append_message_def
          stream_final_response_is_streaming)
qed

section \<open>The first stream of a turn\<close>

text \<open>
  What \<^verbatim>\<open>stream_response\<close> does once its loop has ended without an exception, having
  changed only the window: with tool calls it hands over to \<^verbatim>\<open>handle_tool_calls\<close>,
  without it saves the reply, if there is one, and finishes.
\<close>

lemma stream_response_after_loop:
  assumes "consume (fst (chat_stream (decode w) (initial w)))
             (snd (chat_stream (decode w) (initial w))) [] []
             (log_event (request_of s (messages s)) (start_assistant_message s))
           = Inr ((t, calls), (log_event (request_of s (messages s))
                                 (start_assistant_message s))\<lparr>ui := u\<rparr>)"
  shows "stream_response w s =
           (if calls \<noteq> []
            then handle_tool_calls w calls t
                   (s\<lparr>ui := u, trace := trace s @ [request_of s (messages s)]\<rparr>)
            else finish_streaming (clock w)
                   (s\<lparr>ui := u, trace := trace s @ [request_of s (messages s)],
                      messages := messages s @ (if t \<noteq> [] then [assistant_message t] else [])\<rparr>))"
proof -
  have a: "(log_event (request_of s (messages s)) (start_assistant_message s))\<lparr>ui := u\<rparr>
           = s\<lparr>ui := u, trace := trace s @ [request_of s (messages s)]\<rparr>"
    by (rule app.equality) (simp_all add: log_event_def start_assistant_message_def)
  have b: "append_message (assistant_message t)
             (s\<lparr>ui := u, trace := trace s @ [request_of s (messages s)]\<rparr>)
           = s\<lparr>ui := u, trace := trace s @ [request_of s (messages s)],
               messages := messages s @ [assistant_message t]\<rparr>"
    by (rule app.equality) (simp_all add: append_message_def)
  have c: "s\<lparr>ui := u, trace := trace s @ [request_of s (messages s)]\<rparr>
           = s\<lparr>ui := u, trace := trace s @ [request_of s (messages s)],
               messages := messages s @ []\<rparr>"
    by (rule app.equality) simp_all
  have d: "stream_response w s =
         (case consume (fst (chat_stream (decode w) (initial w)))
                 (snd (chat_stream (decode w) (initial w))) [] []
                 (log_event (request_of s (messages s)) (start_assistant_message s)) of
            Inl (e, s3) \<Rightarrow>
              finish_streaming (clock w)
                (add_to_current_message (error_note (StrOfExn e)) ''error'' s3)
          | Inr ((response_text, tool_calls), s3) \<Rightarrow>
              if tool_calls \<noteq> [] then handle_tool_calls w tool_calls response_text s3
              else finish_streaming (clock w)
                     (if response_text \<noteq> []
                      then append_message (assistant_message response_text) s3
                      else s3))"
    by (simp add: stream_response_def Let_def request_of_def start_assistant_message_def)
  show ?thesis
    unfolding d assms a using b c by simp
qed

text \<open>The first stream completes: every fragment is read.\<close>

lemma stream_response_completes:
  assumes "completes (first_stream w)"
  shows "stream_response w s =
           (if tool_calls_of (first_stream w) \<noteq> []
            then handle_tool_calls w (tool_calls_of (first_stream w)) (content_of (first_stream w))
                   (s\<lparr>ui := ui s @ StartAssistantMessage # shown (first_stream w),
                      trace := trace s @ [request_of s (messages s)]\<rparr>)
            else finish_streaming (clock w)
                   (s\<lparr>ui := ui s @ StartAssistantMessage # shown (first_stream w),
                      trace := trace s @ [request_of s (messages s)],
                      messages := messages s @ (if content_of (first_stream w) \<noteq> []
                                                then [assistant_message (content_of (first_stream w))]
                                                else [])\<rparr>))"
proof -
  let ?s2 = "log_event (request_of s (messages s)) (start_assistant_message s)"
  have u: "ui ?s2 @ shown (first_stream w) = ui s @ StartAssistantMessage # shown (first_stream w)"
    by (simp add: log_event_def start_assistant_message_def)
  have "consume (fst (chat_stream (decode w) (initial w)))
          (snd (chat_stream (decode w) (initial w))) [] [] ?s2
        = Inr ((content_of (first_stream w), tool_calls_of (first_stream w)),
               ?s2\<lparr>ui := ui s @ StartAssistantMessage # shown (first_stream w)\<rparr>)"
    using consume_completes [OF assms, of "snd (chat_stream (decode w) (initial w))" ?s2]
    unfolding u by (simp add: first_stream_def content_of_def tool_calls_of_def)
  from stream_response_after_loop [OF this] show ?thesis .
qed

text \<open>The first stream breaks: it is read up to its first error fragment.\<close>

lemma breaks_after_split:
  assumes "breaks_after before cs"
  shows "cs = before @ cs ! length before # drop (Suc (length before)) cs"
    and "is_error (cs ! length before)"
    and "\<forall>c\<in>set before. fragment c \<and> \<not> is_error c \<and> \<not> is_done c"
proof -
  from assms have b: "before = takeWhile (\<lambda>c. \<not> is_error c) cs"
    and l: "length before < length cs"
    and f: "\<forall>c\<in>set before. fragment c \<and> \<not> is_done c"
    by (auto simp: breaks_after_def)
  from l have "cs = take (length before) cs @ cs ! length before # drop (Suc (length before)) cs"
    by (simp add: id_take_nth_drop)
  moreover have "take (length before) cs = before"
    unfolding b by (rule takeWhile_eq_take [symmetric])
  ultimately show "cs = before @ cs ! length before # drop (Suc (length before)) cs"
    by simp
  from l show "is_error (cs ! length before)"
    unfolding b using nth_length_takeWhile [of "\<lambda>c. \<not> is_error c" cs] by simp
  from f show "\<forall>c\<in>set before. fragment c \<and> \<not> is_error c \<and> \<not> is_done c"
    unfolding b by (auto dest: set_takeWhileD)
qed

lemma stream_response_breaks:
  assumes "breaks_after before (first_stream w)"
  shows "stream_response w s =
           (if tool_calls_of before \<noteq> []
            then handle_tool_calls w (tool_calls_of before) (content_of before)
                   (s\<lparr>ui := ui s @ StartAssistantMessage # shown before
                                @ [error_shown (first_stream w ! length before)],
                      trace := trace s @ [request_of s (messages s)]\<rparr>)
            else finish_streaming (clock w)
                   (s\<lparr>ui := ui s @ StartAssistantMessage # shown before
                                @ [error_shown (first_stream w ! length before)],
                      trace := trace s @ [request_of s (messages s)],
                      messages := messages s @ (if content_of before \<noteq> []
                                                then [assistant_message (content_of before)]
                                                else [])\<rparr>))"
proof -
  let ?s2 = "log_event (request_of s (messages s)) (start_assistant_message s)"
  let ?c = "first_stream w ! length before"
  note sp = breaks_after_split [OF assms]
  from sp(2) obtain kvs where kvs: "?c = JObj kvs" by (cases ?c) auto
  have "consume (before @ JObj kvs # drop (Suc (length before)) (first_stream w))
          (snd (chat_stream (decode w) (initial w))) [] [] ?s2
        = Inr ((concat (map delta before), concat (map requested before)),
               ?s2\<lparr>ui := ui ?s2 @ shown before
                    @ [AddToCurrentMessage (error_note (StrOf (get_item kvs ''message'' JNull)))
                         ''error'']\<rparr>)"
    using sp(2) kvs by (intro consume_error [OF sp(3)]) simp
  moreover have "before @ JObj kvs # drop (Suc (length before)) (first_stream w) = first_stream w"
    using sp(1) kvs by simp
  ultimately have "consume (fst (chat_stream (decode w) (initial w)))
          (snd (chat_stream (decode w) (initial w))) [] [] ?s2
        = Inr ((content_of before, tool_calls_of before),
               ?s2\<lparr>ui := ui s @ StartAssistantMessage # shown before @ [error_shown ?c]\<rparr>)"
    using kvs
    by (simp add: first_stream_def content_of_def tool_calls_of_def error_shown_def
          error_message_def log_event_def start_assistant_message_def)
  from stream_response_after_loop [OF this] show ?thesis .
qed

section \<open>Properties of the conversation orchestrator\<close>

text \<open>
  C1 (as amended). When the first stream completes and none of its fragments requests a
  tool, \<^verbatim>\<open>stream_response\<close> appends exactly one assistant message, whose content is
  the concatenation of the content deltas in arrival order, if that text is not empty;
  when every delta is empty it appends nothing. One chat request is made, no tool is
  executed, and the application is ready again.
\<close>

theorem stream_response_saves_reply:
  assumes "completes (first_stream w)"
    and "tool_calls_of (first_stream w) = []"
  shows "messages (stream_response w s)
           = messages s @ (if content_of (first_stream w) = [] then []
                           else [assistant_message (content_of (first_stream w))])
         \<and> trace (stream_response w s) = trace s @ [request_of s (messages s)]
         \<and> is_streaming (stream_response w s) = False"
  unfolding stream_response_completes [OF assms(1)] using assms(2) by simp

lemma first_stream_reply_env:
  "first_stream reply_env = [content_chunk ''4'' False, content_chunk [] True]"
  by (simp add: first_stream_def reply_env_def chat_stream_def example_decoder_def
        table_decoder_def)

lemma first_stream_silent_env: "first_stream silent_env = [content_chunk [] True]"
  by (simp add: first_stream_def silent_env_def chat_stream_def example_decoder_def
        table_decoder_def)

lemma messages_asked_app: "messages asked_app = [user_message ''What is 2+2?'']"
  by (simp add: asked_app_def idle_app_def send_message_def Let_def strip_def py_isspace_def
        falsy_model_def append_message_def)

theorem stream_response_saves_reply_witness:
  "completes (first_stream reply_env) \<and> tool_calls_of (first_stream reply_env) = []
   \<and> messages (stream_response reply_env asked_app)
       = [user_message ''What is 2+2?'', assistant_message ''4'']"
proof -
  have c: "completes (first_stream reply_env)"
    by (simp add: first_stream_reply_env completes_def content_chunk_def get_item_def)
  have t: "tool_calls_of (first_stream reply_env) = []"
    by (simp add: first_stream_reply_env tool_calls_of_def content_chunk_def)
  have d: "content_of (first_stream reply_env) = ''4''"
    by (simp add: first_stream_reply_env content_of_def content_chunk_def)
  from stream_response_saves_reply [OF c t, of asked_app] c t show ?thesis
    by (simp add: d messages_asked_app)
qed

text \<open>
  The claim as stated fails when the reply is empty: the stream below is one fragment
  with empty content that says done, and the history is what it was.
\<close>

theorem stream_response_empty_reply_counterexample:
  "completes (first_stream silent_env) \<and> tool_calls_of (first_stream silent_env) = []
   \<and> messages (stream_response silent_env asked_app) = messages asked_app"
proof -
  have c: "completes (first_stream silent_env)"
    by (simp add: first_stream_silent_env completes_def content_chunk_def get_item_def)
  have t: "tool_calls_of (first_stream silent_env) = []"
    by (simp add: first_stream_silent_env tool_calls_of_def content_chunk_def)
  have d: "content_of (first_stream silent_env) = []"
    by (simp add: first_stream_silent_env content_of_def content_chunk_def)
  show ?thesis
    unfolding stream_response_completes [OF c] using c t d by simp
qed

lemma first_stream_tool_env:
  "first_stream tool_env = [tool_call_chunk crypto_call False, content_chunk [] True]"
  by (simp add: first_stream_def tool_env_def chat_stream_def example_decoder_def
        table_decoder_def)

lemma dispatchable_crypto_call: "dispatchable crypto_call"
  by (simp add: crypto_call_def get_item_def)

lemma tool_registry_asked_app: "tool_registry asked_app = example_tools"
  by (simp add: asked_app_def idle_app_def send_message_def Let_def strip_def py_isspace_def
        falsy_model_def append_message_def)

lemma contained_crypto_call: "contained (tool_registry asked_app) crypto_call"
  by (simp add: tool_registry_asked_app contained_def call_name_def call_arguments_def
        crypto_call_def get_item_def example_tools_def default_tools_def register_tool_def
        example_handler_def)

lemma first_stream_two_tools_env:
  "first_stream two_tools_env
     = [tool_call_chunk crypto_call False, tool_call_chunk bare_call False,
        content_chunk [] True]"
  by (simp add: first_stream_def two_tools_env_def chat_stream_def example_decoder_def
        table_decoder_def)

lemma first_stream_quit_env:
  "first_stream quit_env
     = [tool_call_chunk quit_call False, tool_call_chunk crypto_call False,
        content_chunk [] True]"
  by (simp add: first_stream_def quit_env_def chat_stream_def example_decoder_def
        table_decoder_def)

lemma dispatchable_bare_call: "dispatchable bare_call"
  by (simp add: bare_call_def get_item_def)

lemma bare_call_unknown:
  "call_name bare_call = JStr ''unknown'' \<and> call_arguments bare_call = JObj []"
  by (simp add: bare_call_def get_item_def call_name_def call_arguments_def)

lemma example_tools_unknown: "map_of example_tools ''unknown'' = None"
  by (simp add: example_tools_def default_tools_def register_tool_def)

lemma tool_result_crypto_call:
  "tool_result example_tools crypto_call
     = json_dumps (Some 2)
         (JObj [(''success'', JBool True), (''data'', JArr []), (''timestamp'', JStr ''now'')])"
  by (simp add: tool_result_def execute_tool_def call_name_def call_arguments_def
        crypto_call_def get_item_def example_tools_def default_tools_def register_tool_def
        example_handler_def)

lemma tool_result_bare_call:
  "tool_result example_tools bare_call = not_found_payload ''unknown''"
  by (simp add: tool_result_def execute_tool_def bare_call_unknown example_tools_unknown)

text \<open>
  C2 (as amended). When the first stream completes and its fragments request at least
  one tool, and no handler that is called raises an exception that is not derived from
  \<^verbatim>\<open>Exception\<close>: the tool calls are executed in the order in which they were
  received, each by one call of \<^verbatim>\<open>execute_tool\<close>; the history gains the assistant
  message with the tool calls and then exactly one tool-result message per call, in that
  order; and the second chat request is made after all of them, with a body that holds
  that whole history.
\<close>

theorem tool_calls_dispatched_in_order:
  assumes "completes (first_stream w)"
    and "tool_calls_of (first_stream w) = calls" and "calls \<noteq> []"
    and "\<forall>tc\<in>set calls. dispatchable tc \<and> contained (tool_registry s) tc"
  shows "trace (stream_response w s)
           = trace s @ [request_of s (messages s)] @ map call_event calls
             @ [request_of s
                  (messages s @ [assistant_tool_message (content_of (first_stream w)) calls]
                   @ map (\<lambda>tc. tool_message (tool_result (tool_registry s) tc)) calls)]
         \<and> (\<exists>finals. messages (stream_response w s)
               = messages s @ [assistant_tool_message (content_of (first_stream w)) calls]
                 @ map (\<lambda>tc. tool_message (tool_result (tool_registry s) tc)) calls @ finals
               \<and> (finals = [] \<or> (\<exists>t. finals = [assistant_message t])))"
proof -
  let ?s1 = "s\<lparr>ui := ui s @ StartAssistantMessage # shown (first_stream w),
               trace := trace s @ [request_of s (messages s)]\<rparr>"
  have r: "stream_response w s = handle_tool_calls w calls (content_of (first_stream w)) ?s1"
    unfolding stream_response_completes [OF assms(1)] using assms(2,3) by simp
  have q: "request_of ?s1 = request_of s"
    by (simp add: request_of_def fun_eq_iff)
  from assms(4) have a: "\<forall>tc\<in>set calls. dispatchable tc \<and> contained (tool_registry ?s1) tc"
    by simp
  from handle_tool_calls_trace [OF a, of w "content_of (first_stream w)"]
       handle_tool_calls_messages [OF a, of w "content_of (first_stream w)"]
  show ?thesis unfolding r q by simp
qed

text \<open>
  A stream that asks for the sample tool and then for a tool without a name: the sample
  tool is executed first and the name \<^verbatim>\<open>unknown\<close> second, the two tool-result
  messages stand in that order, and the second request comes last.
\<close>

theorem tool_calls_dispatched_in_order_witness:
  "completes (first_stream two_tools_env)
   \<and> tool_calls_of (first_stream two_tools_env) = [crypto_call, bare_call]
   \<and> dispatchable crypto_call \<and> contained (tool_registry asked_app) crypto_call
   \<and> dispatchable bare_call \<and> contained (tool_registry asked_app) bare_call
   \<and> trace (stream_response two_tools_env asked_app)
       = [request_of asked_app [user_message ''What is 2+2?''],
          ExecuteTool (JStr ''get_top_cryptocurrencies'') (JObj []),
          ExecuteTool (JStr ''unknown'') (JObj []),
          request_of asked_app
            [user_message ''What is 2+2?'',
             assistant_tool_message [] [crypto_call, bare_call],
             tool_message
               (json_dumps (Some 2)
                  (JObj [(''success'', JBool True), (''data'', JArr []),
                         (''timestamp'', JStr ''now'')])),
             tool_message (not_found_payload ''unknown'')]]
   \<and> (\<exists>finals. messages (stream_response two_tools_env asked_app)
         = [user_message ''What is 2+2?'',
            assistant_tool_message [] [crypto_call, bare_call],
            tool_message
              (json_dumps (Some 2)
                 (JObj [(''success'', JBool True), (''data'', JArr []),
                        (''timestamp'', JStr ''now'')])),
            tool_message (not_found_payload ''unknown'')] @ finals
         \<and> (finals = [] \<or> (\<exists>t. finals = [assistant_message t])))"
proof -
  have c: "completes (first_stream two_tools_env)"
    by (simp add: first_stream_two_tools_env completes_def content_chunk_def
          tool_call_chunk_def get_item_def)
  have t: "tool_calls_of (first_stream two_tools_env) = [crypto_call, bare_call]"
    by (simp add: first_stream_two_tools_env tool_calls_of_def content_chunk_def
          tool_call_chunk_def)
  have d: "content_of (first_stream two_tools_env) = []"
    by (simp add: first_stream_two_tools_env content_of_def content_chunk_def
          tool_call_chunk_def)
  have e: "call_event crypto_call = ExecuteTool (JStr ''get_top_cryptocurrencies'') (JObj [])"
    by (simp add: call_event_def call_name_def call_arguments_def crypto_call_def get_item_def)
  have e': "call_event bare_call = ExecuteTool (JStr ''unknown'') (JObj [])"
    by (simp add: call_event_def bare_call_unknown)
  have b: "contained (tool_registry asked_app) bare_call"
    by (simp add: contained_def bare_call_unknown tool_registry_asked_app example_tools_unknown)
  have n: "[crypto_call, bare_call] \<noteq> []" by simp
  have a: "\<forall>tc\<in>set [crypto_call, bare_call].
             dispatchable tc \<and> contained (tool_registry asked_app) tc"
    by (simp add: dispatchable_crypto_call contained_crypto_call dispatchable_bare_call b)
  have z: "trace asked_app = []"
    by (simp add: asked_app_def idle_app_def send_message_def Let_def strip_def py_isspace_def
          falsy_model_def append_message_def)
  note main = tool_calls_dispatched_in_order [OF c t n a]
  have 1: "trace (stream_response two_tools_env asked_app)
       = [request_of asked_app [user_message ''What is 2+2?''],
          ExecuteTool (JStr ''get_top_cryptocurrencies'') (JObj []),
          ExecuteTool (JStr ''unknown'') (JObj []),
          request_of asked_app
            [user_message ''What is 2+2?'',
             assistant_tool_message [] [crypto_call, bare_call],
             tool_message
               (json_dumps (Some 2)
                  (JObj [(''success'', JBool True), (''data'', JArr []),
                         (''timestamp'', JStr ''now'')])),
             tool_message (not_found_payload ''unknown'')]]"
    using main
    by (simp add: d e e' z messages_asked_app tool_registry_asked_app tool_result_crypto_call
          tool_result_bare_call)
  have 2: "\<exists>finals. messages (stream_response two_tools_env asked_app)
         = [user_message ''What is 2+2?'',
            assistant_tool_message [] [crypto_call, bare_call],
            tool_message
              (json_dumps (Some 2)
                 (JObj [(''success'', JBool True), (''data'', JArr []),
                        (''timestamp'', JStr ''now'')])),
            tool_message (not_found_payload ''unknown'')] @ finals
         \<and> (finals = [] \<or> (\<exists>t. finals = [assistant_message t]))"
    using main
    by (simp add: d messages_asked_app tool_registry_asked_app tool_result_crypto_call
          tool_result_bare_call)
  from c t dispatchable_crypto_call contained_crypto_call dispatchable_bare_call b 1 2
  show ?thesis by (intro conjI)
qed

text \<open>
  The claim as stated fails when a handler raises an exception that is not derived from
  \<^verbatim>\<open>Exception\<close>. The stream below asks for the tool \<^verbatim>\<open>quit\<close>, whose handler raises
  SystemExit, and then for the sample tool: the exception leaves \<^verbatim>\<open>execute_tool\<close> and
  the loop of \<^verbatim>\<open>handle_tool_calls\<close>, so no tool-result message is appended for
  either call, the sample tool is never executed, and no second chat request is made.
\<close>

theorem handler_exit_ends_dispatch_counterexample:
  "completes (first_stream quit_env)
   \<and> tool_calls_of (first_stream quit_env) = [quit_call, crypto_call]
   \<and> dispatchable quit_call \<and> dispatchable crypto_call
   \<and> messages (stream_response quit_env quitting_app)
       = [user_message ''What is 2+2?'', assistant_tool_message [] [quit_call, crypto_call]]
   \<and> trace (stream_response quit_env quitting_app)
       = [request_of quitting_app [user_message ''What is 2+2?''],
          ExecuteTool (JStr ''quit'') (JObj [])]"
proof -
  have c: "completes (first_stream quit_env)"
    by (simp add: first_stream_quit_env completes_def content_chunk_def
          tool_call_chunk_def get_item_def)
  have t: "tool_calls_of (first_stream quit_env) = [quit_call, crypto_call]"
    by (simp add: first_stream_quit_env tool_calls_of_def content_chunk_def
          tool_call_chunk_def)
  have d: "content_of (first_stream quit_env) = []"
    by (simp add: first_stream_quit_env content_of_def content_chunk_def tool_call_chunk_def)
  have q: "dispatchable quit_call"
    by (simp add: quit_call_def get_item_def)
  have x: "execute_tool exiting_tools (JStr ''quit'') (JObj []) = Inl (NotException SystemExit)"
    by (simp add: exiting_tools_def register_tool_def exiting_handler_def execute_tool_def
          example_tools_def default_tools_def)
  have m: "messages quitting_app = [user_message ''What is 2+2?'']"
    and z: "trace quitting_app = []"
    and g: "tool_registry quitting_app = exiting_tools"
    by (simp_all add: quitting_app_def asked_app_def idle_app_def send_message_def Let_def
          strip_def py_isspace_def falsy_model_def append_message_def)
  have r: "stream_response quit_env quitting_app
           = handle_tool_calls quit_env [quit_call, crypto_call] []
               (quitting_app\<lparr>ui := ui quitting_app @ StartAssistantMessage
                                 # shown (first_stream quit_env),
                              trace := trace quitting_app
                                 @ [request_of quitting_app (messages quitting_app)]\<rparr>)"
    unfolding stream_response_completes [OF c] by (simp add: t d)
  have 1: "messages (stream_response quit_env quitting_app)
       = [user_message ''What is 2+2?'', assistant_tool_message [] [quit_call, crypto_call]]"
    unfolding r
    by (simp add: handle_tool_calls_def append_message_def quit_call_def get_item_def Let_def
          log_event_def add_to_current_message_def g x m)
  have 2: "trace (stream_response quit_env quitting_app)
       = [request_of quitting_app [user_message ''What is 2+2?''],
          ExecuteTool (JStr ''quit'') (JObj [])]"
    unfolding r
    by (simp add: handle_tool_calls_def append_message_def quit_call_def get_item_def Let_def
          log_event_def add_to_current_message_def g x m z)
  from c t q dispatchable_crypto_call 1 2 show ?thesis by (intro conjI)
qed

text \<open>
  C3 (as amended). When an error fragment arrives in the first stream and no tool call
  was received before it, the window is given the error note, no tool is executed, no
  second chat request is made, and the application is ready again; the text received
  before the error, if any, is saved as the assistant message.
\<close>

theorem error_fragment_ends_turn:
  assumes "breaks_after before (first_stream w)"
    and "tool_calls_of before = []"
  shows "ui (stream_response w s)
           = ui s @ StartAssistantMessage # shown before
             @ [error_shown (first_stream w ! length before)]
         \<and> trace (stream_response w s) = trace s @ [request_of s (messages s)]
         \<and> is_streaming (stream_response w s) = False
         \<and> messages (stream_response w s)
             = messages s @ (if content_of before = [] then []
                             else [assistant_message (content_of before)])"
  unfolding stream_response_breaks [OF assms(1)] using assms(2) by simp

lemma first_stream_broken_env:
  "first_stream broken_env = [content_chunk ''4'' False, error_fragment ''Connection broken'']"
  by (simp add: first_stream_def broken_env_def chat_stream_def example_decoder_def
        table_decoder_def)

lemma first_stream_broken_tool_env:
  "first_stream broken_tool_env
     = [tool_call_chunk crypto_call False, error_fragment ''Connection broken'']"
  by (simp add: first_stream_def broken_tool_env_def chat_stream_def example_decoder_def
        table_decoder_def)

theorem error_fragment_ends_turn_witness:
  "breaks_after [content_chunk ''4'' False] (first_stream broken_env)
   \<and> tool_calls_of [content_chunk ''4'' False] = []
   \<and> trace (stream_response broken_env asked_app)
       = trace asked_app @ [request_of asked_app (messages asked_app)]
   \<and> is_streaming (stream_response broken_env asked_app) = False
   \<and> ui (stream_response broken_env asked_app)
       = ui asked_app
         @ [StartAssistantMessage, AddToCurrentMessage [Lit ''4''] ''assistant'',
            AddToCurrentMessage
              (error_note (StrOf (JStr ''Error communicating with Ollama: Connection broken'')))
              ''error'']"
proof -
  have b: "breaks_after [content_chunk ''4'' False] (first_stream broken_env)"
    by (simp add: first_stream_broken_env breaks_after_def content_chunk_def
          error_fragment_def get_item_def)
  have t: "tool_calls_of [content_chunk ''4'' False] = []"
    by (simp add: tool_calls_of_def content_chunk_def)
  have e: "error_shown (first_stream broken_env ! Suc 0)
           = AddToCurrentMessage
               (error_note (StrOf (JStr ''Error communicating with Ollama: Connection broken'')))
               ''error''"
    by (simp add: first_stream_broken_env error_shown_def error_message_def
          error_fragment_def get_item_def)
  have s: "shown [content_chunk ''4'' False] = [AddToCurrentMessage [Lit ''4''] ''assistant'']"
    by (simp add: shown_def content_chunk_def)
  from error_fragment_ends_turn [OF b t, of asked_app] b t show ?thesis
    by (simp add: e s)
qed

text \<open>
  The claim as stated fails when a tool call was received before the error: the
  connection below breaks after the fragment that asks for the sample tool, and the tool
  is executed and a second chat request is made all the same.
\<close>

theorem error_after_tool_call_counterexample:
  "breaks_after [tool_call_chunk crypto_call False] (first_stream broken_tool_env)
   \<and> trace (stream_response broken_tool_env asked_app)
       = trace asked_app @ [request_of asked_app (messages asked_app)]
         @ [ExecuteTool (JStr ''get_top_cryptocurrencies'') (JObj [])]
         @ [request_of asked_app
              (messages asked_app @ [assistant_tool_message [] [crypto_call]]
               @ [tool_message (tool_result (tool_registry asked_app) crypto_call)])]"
proof -
  let ?s1 = "asked_app\<lparr>ui := ui asked_app @ StartAssistantMessage
                 # shown [tool_call_chunk crypto_call False]
                 @ [error_shown (first_stream broken_tool_env
                                   ! length [tool_call_chunk crypto_call False])],
               trace := trace asked_app @ [request_of asked_app (messages asked_app)]\<rparr>"
  have b: "breaks_after [tool_call_chunk crypto_call False] (first_stream broken_tool_env)"
    by (simp add: first_stream_broken_tool_env breaks_after_def tool_call_chunk_def
          error_fragment_def get_item_def)
  have t: "tool_calls_of [tool_call_chunk crypto_call False] = [crypto_call]"
    by (simp add: tool_calls_of_def tool_call_chunk_def)
  have d: "content_of [tool_call_chunk crypto_call False] = []"
    by (simp add: content_of_def tool_call_chunk_def)
  have e: "call_event crypto_call = ExecuteTool (JStr ''get_top_cryptocurrencies'') (JObj [])"
    by (simp add: call_event_def call_name_def call_arguments_def crypto_call_def get_item_def)
  have a: "\<forall>tc\<in>set [crypto_call]. dispatchable tc \<and> contained (tool_registry ?s1) tc"
    by (simp add: dispatchable_crypto_call contained_crypto_call)
  have r: "stream_response broken_tool_env asked_app
           = handle_tool_calls broken_tool_env [crypto_call] [] ?s1"
    unfolding stream_response_breaks [OF b] by (simp add: t d)
  have q: "request_of ?s1 = request_of asked_app"
    by (simp add: request_of_def fun_eq_iff)
  from handle_tool_calls_trace [OF a, of broken_tool_env "[]"] b
  show ?thesis unfolding r q by (simp add: e)
qed

text \<open>
  C7. The stream opened after the tool calls ends the turn, whatever it holds: exactly
  one chat request is added to what left the application, no tool is executed for the
  tool calls it may carry, at most one assistant message is appended, and the
  application is ready again.
\<close>

theorem final_stream_ends_turn:
  "trace (stream_final_response w s) = trace s @ [request_of s (messages s)]
   \<and> is_streaming (stream_final_response w s) = False
   \<and> (\<exists>finals. messages (stream_final_response w s) = messages s @ finals
         \<and> (finals = [] \<or> (\<exists>t. finals = [assistant_message t])))"
  using stream_final_response_trace [of w s] stream_final_response_is_streaming [of w s]
    stream_final_response_messages [of w s]
  by simp

theorem final_stream_ends_turn_witness:
  "tool_calls_of (fst (chat_stream (decode tool_env) (resumed tool_env))) = [crypto_call]
   \<and> trace (stream_final_response tool_env asked_app)
       = trace asked_app @ [request_of asked_app (messages asked_app)]
   \<and> is_streaming (stream_final_response tool_env asked_app) = False"
proof -
  have "tool_calls_of (fst (chat_stream (decode tool_env) (resumed tool_env))) = [crypto_call]"
    by (simp add: tool_env_def chat_stream_def example_decoder_def table_decoder_def
          tool_calls_of_def tool_call_chunk_def content_chunk_def)
  with final_stream_ends_turn [of tool_env asked_app] show ?thesis by simp
qed

text \<open>
  C8. A submission with empty input (after stripping white space), with no model
  selected, or while a stream is in flight is rejected: \<^verbatim>\<open>send_message\<close> starts no
  thread, so no chat request is made, and the history is what it was.
\<close>

theorem send_message_rejects:
  assumes "strip (input_text s) = []
           \<or> (falsy_model (current_model s) \<and> model_var s = [])
           \<or> is_streaming s"
  shows "snd (send_message s) = False
         \<and> messages (fst (send_message s)) = messages s
         \<and> trace (fst (send_message s)) = trace s
         \<and> messages (submit w s) = messages s
         \<and> trace (submit w s) = trace s"
proof -
  from assms have a: "snd (send_message s) = False"
    by (auto simp: send_message_def Let_def falsy_model_def split: option.splits)
  have b: "messages (fst (send_message s)) = messages s \<and> trace (fst (send_message s)) = trace s"
    using assms
    by (auto simp: send_message_def Let_def falsy_model_def split: option.splits)
  from a have "submit w s = fst (send_message s)"
    by (cases "send_message s") (simp add: submit_def)
  with a b show ?thesis by simp
qed

theorem send_message_rejects_witness:
  "strip (input_text (idle_app\<lparr>input_text := '' '' @ [CHR 0x0A]\<rparr>)) = []
   \<and> messages (submit reply_env (idle_app\<lparr>input_text := '' '' @ [CHR 0x0A]\<rparr>)) = []
   \<and> falsy_model (current_model (idle_app\<lparr>model_var := []\<rparr>))
   \<and> model_var (idle_app\<lparr>model_var := []\<rparr>) = []
   \<and> messages (submit reply_env (idle_app\<lparr>model_var := []\<rparr>)) = []
   \<and> is_streaming asked_app
   \<and> messages (submit reply_env asked_app) = [user_message ''What is 2+2?'']
   \<and> trace (submit reply_env asked_app) = []"
proof -
  have a: "strip (input_text (idle_app\<lparr>input_text := '' '' @ [CHR 0x0A]\<rparr>)) = []"
    by (simp add: strip_def py_isspace_def)
  have b: "falsy_model (current_model (idle_app\<lparr>model_var := []\<rparr>))
           \<and> model_var (idle_app\<lparr>model_var := []\<rparr>) = []"
    by (simp add: idle_app_def falsy_model_def)
  have c: "is_streaming asked_app"
    by (simp add: asked_app_def idle_app_def send_message_def Let_def strip_def py_isspace_def
          falsy_model_def append_message_def)
  have d: "trace asked_app = []"
    by (simp add: asked_app_def idle_app_def send_message_def Let_def strip_def py_isspace_def
          falsy_model_def append_message_def)
  have e: "messages idle_app = []" by (simp add: idle_app_def)
  from send_message_rejects [of "idle_app\<lparr>input_text := '' '' @ [CHR 0x0A]\<rparr>" reply_env] a
  have 1: "messages (submit reply_env (idle_app\<lparr>input_text := '' '' @ [CHR 0x0A]\<rparr>)) = []"
    by (simp add: e)
  from send_message_rejects [of "idle_app\<lparr>model_var := []\<rparr>" reply_env] b
  have 2: "messages (submit reply_env (idle_app\<lparr>model_var := []\<rparr>)) = []"
    by (simp add: e)
  from send_message_rejects [of asked_app reply_env] c
  have 3: "messages (submit reply_env asked_app) = [user_message ''What is 2+2?'']
           \<and> trace (submit reply_env asked_app) = []"
    by (simp add: messages_asked_app d)
  from a b c 1 2 3 show ?thesis by simp
qed

lemma lacking_name:
  assumes "map_of kvs ''function'' = None
           \<or> (\<exists>f. map_of kvs ''function'' = Some (JObj f) \<and> map_of f ''name'' = None)"
  shows "dispatchable (JObj kvs)" and "call_name (JObj kvs) = JStr ''unknown''"
  using assms by (auto simp: get_item_def call_name_def)

lemma not_found_unknown:
  assumes "call_name tc = JStr ''unknown''" and "map_of tools ''unknown'' = None"
  shows "tool_result tools tc = not_found_payload ''unknown''" and "contained tools tc"
  using assms by (simp_all add: tool_result_def execute_tool_def contained_def)

lemma not_found_unknown_text:
  "not_found_payload ''unknown''
     = ''{'' @ [CHR 0x22] @ ''error'' @ [CHR 0x22] @ '': '' @ [CHR 0x22] @ ''Tool ''
       @ [CHR 0x27] @ ''unknown'' @ [CHR 0x27] @ '' not found'' @ [CHR 0x22] @ ''}''"
  by (simp add: not_found_payload_def json_dumps_def encode_string_def escape_char_def
        newline_indent_def item_separator_def)

text \<open>
  C10 (as amended). For a tool call that is a dictionary without a function, or whose
  function is a dictionary without a name, and a registry that has no tool named
  \<^verbatim>\<open>unknown\<close>: the loop of \<^verbatim>\<open>handle_tool_calls\<close> appends exactly one tool-result
  message, whose content is the not-found payload for the name \<^verbatim>\<open>unknown\<close>, and goes
  on with the remaining calls; called with that one tool call, \<^verbatim>\<open>handle_tool_calls\<close>
  does not raise, makes the second chat request and the turn ends.
\<close>

theorem tool_call_without_name_answered:
  assumes "map_of kvs ''function'' = None
           \<or> (\<exists>f. map_of kvs ''function'' = Some (JObj f) \<and> map_of f ''name'' = None)"
    and "map_of (tool_registry s) ''unknown'' = None"
  shows "dispatch (JObj kvs # rest) s
           = dispatch rest
               (s\<lparr>messages := messages s @ [tool_message (not_found_payload ''unknown'')],
                  ui := ui s @ call_shown (tool_registry s) (JObj kvs),
                  trace := trace s @ [call_event (JObj kvs)]\<rparr>)
         \<and> (\<exists>finals. messages (handle_tool_calls w [JObj kvs] t s)
               = messages s @ [assistant_tool_message t [JObj kvs],
                               tool_message (not_found_payload ''unknown'')] @ finals
               \<and> (finals = [] \<or> (\<exists>t'. finals = [assistant_message t'])))
         \<and> is_streaming (handle_tool_calls w [JObj kvs] t s) = False"
proof -
  note l = lacking_name [OF assms(1)]
  have r: "tool_result (tool_registry s) (JObj kvs) = not_found_payload ''unknown''"
    using l(2) assms(2) by (rule not_found_unknown(1))
  have c: "contained (tool_registry s) (JObj kvs)"
    using l(2) assms(2) by (rule not_found_unknown(2))
  have a: "\<forall>tc\<in>set [JObj kvs]. dispatchable tc \<and> contained (tool_registry s) tc"
    using l(1) c by simp
  have 1: "dispatch (JObj kvs # rest) s
           = dispatch rest
               (s\<lparr>messages := messages s @ [tool_message (not_found_payload ''unknown'')],
                  ui := ui s @ call_shown (tool_registry s) (JObj kvs),
                  trace := trace s @ [call_event (JObj kvs)]\<rparr>)"
    using dispatch_step [OF conjI [OF l(1) c], of rest] by (simp only: r)
  have 2: "\<exists>finals. messages (handle_tool_calls w [JObj kvs] t s)
               = messages s @ [assistant_tool_message t [JObj kvs],
                               tool_message (not_found_payload ''unknown'')] @ finals
               \<and> (finals = [] \<or> (\<exists>t'. finals = [assistant_message t']))"
    using handle_tool_calls_messages [OF a, of w t] by (simp add: r)
  have 3: "is_streaming (handle_tool_calls w [JObj kvs] t s) = False"
    using handle_tool_calls_is_streaming [OF a, of w t] .
  from 1 2 3 show ?thesis by (intro conjI)
qed

lemma is_streaming_asked_app: "is_streaming asked_app"
  by (simp add: asked_app_def idle_app_def send_message_def Let_def strip_def py_isspace_def
        falsy_model_def append_message_def)

theorem tool_call_without_name_answered_witness:
  "map_of [(''id'', JStr ''call_1'')] ''function'' = None
   \<and> map_of (tool_registry asked_app) ''unknown'' = None
   \<and> (\<exists>finals. messages (handle_tool_calls tool_env [bare_call] [] asked_app)
         = messages asked_app @ [assistant_tool_message [] [bare_call],
                                 tool_message (not_found_payload ''unknown'')] @ finals
         \<and> (finals = [] \<or> (\<exists>t'. finals = [assistant_message t'])))
   \<and> is_streaming (handle_tool_calls tool_env [bare_call] [] asked_app) = False"
proof -
  have a: "map_of [(''id'', JStr ''call_1'')] ''function'' = None
           \<or> (\<exists>f. map_of [(''id'', JStr ''call_1'')] ''function'' = Some (JObj f)
                  \<and> map_of f ''name'' = None)"
    by simp
  have b: "map_of (tool_registry asked_app) ''unknown'' = None"
    by (simp add: tool_registry_asked_app example_tools_def default_tools_def
          register_tool_def)
  from tool_call_without_name_answered [OF a b, of "[]" tool_env "[]"] b show ?thesis
    by (simp add: bare_call_def)
qed

text \<open>
  The claim as stated fails for a tool call that has a function field which is no
  dictionary: \<^verbatim>\<open>{"function": null}\<close> has no \<^verbatim>\<open>function.name\<close>, and
  \<^verbatim>\<open>function_info.get\<close> raises AttributeError. The callback ends there: no tool-result
  message is appended, no second chat request is made, and \<^verbatim>\<open>finish_streaming\<close> is
  never called, so the application stays busy.
\<close>

theorem tool_call_null_function_counterexample:
  "dispatch [null_function_call] asked_app = (asked_app, Some AttributeError)
   \<and> messages (handle_tool_calls tool_env [null_function_call] [] asked_app)
       = messages asked_app @ [assistant_tool_message [] [null_function_call]]
   \<and> trace (handle_tool_calls tool_env [null_function_call] [] asked_app) = trace asked_app
   \<and> is_streaming (handle_tool_calls tool_env [null_function_call] [] asked_app)"
  by (simp add: handle_tool_calls_def null_function_call_def get_item_def append_message_def
        is_streaming_asked_app)

section \<open>Decoding what the encoder wrote\<close>

declare digits.simps [simp del]

subsection \<open>Strings\<close>

lemma below_16: "(d::nat) < 16 \<Longrightarrow> d \<in> {0, 1, 2, 3, 4, 5, 6, 7, 8, 9, 10, 11, 12, 13, 14, 15}"
  by simp arith

lemma hex_value_hex_digit: "d < 16 \<Longrightarrow> hex_value (hex_digit d) = Some d"
  by (drule below_16) (auto simp: hex_digit_def hex_value_def)

lemma decode_uXXXX_escape:
  "decode_uXXXX [CHR ''0'', CHR ''0'', hex_digit ((of_char c :: nat) div 16),
                 hex_digit ((of_char c :: nat) mod 16)] = Scanned c []"
proof -
  have "(of_char c :: nat) < 256" by simp
  then have a: "(of_char c :: nat) div 16 < 16" by (simp add: less_mult_imp_div_less)
  have b: "(of_char c :: nat) mod 16 < 16" by simp
  have z: "hex_value CHR ''0'' = Some 0" by (simp add: hex_value_def)
  have "char_of (16 * ((of_char c :: nat) div 16) + (of_char c :: nat) mod 16) = c"
    by simp
  then show ?thesis
    by (simp add: decode_uXXXX_def z hex_value_hex_digit [OF a] hex_value_hex_digit [OF b])
qed

lemma scanstring_escape_char:
  "scanstring (escape_char c @ s) = prepend c (scanstring s)"
proof -
  consider (special) "c \<in> {CHR 0x22, CHR 0x5C, CHR 0x0A, CHR 0x0D, CHR 0x09, CHR 0x08, CHR 0x0C}"
    | (plain) "c \<notin> {CHR 0x22, CHR 0x5C, CHR 0x0A, CHR 0x0D, CHR 0x09, CHR 0x08, CHR 0x0C}"
        "0x20 \<le> (of_char c :: nat) \<and> (of_char c :: nat) \<le> 0x7E"
    | (coded) "c \<notin> {CHR 0x22, CHR 0x5C, CHR 0x0A, CHR 0x0D, CHR 0x09, CHR 0x08, CHR 0x0C}"
        "\<not> (0x20 \<le> (of_char c :: nat) \<and> (of_char c :: nat) \<le> 0x7E)"
    by blast
  then show ?thesis
  proof cases
    case special
    then show ?thesis by (auto simp: escape_char_def unescape_def)
  next
    case plain
    then show ?thesis by (auto simp: escape_char_def)
  next
    case coded
    then have "escape_char c = [CHR 0x5C, CHR ''u'', CHR ''0'', CHR ''0'',
                 hex_digit ((of_char c :: nat) div 16), hex_digit ((of_char c :: nat) mod 16)]"
      by (simp add: escape_char_def)
    then show ?thesis by (simp add: decode_uXXXX_escape)
  qed
qed

lemma scanstring_escaped:
  "scanstring (concat (map escape_char s) @ CHR 0x22 # r) = Scanned s r"
  by (induction s) (simp_all add: scanstring_escape_char prepend_def)

lemma scanstring_encode_string:
  "scanstring (tl (encode_string s) @ r) = Scanned s r"
  using scanstring_escaped [of s r] by (simp add: encode_string_def)

subsection \<open>Integers\<close>

lemma below_10: "(d::nat) < 10 \<Longrightarrow> d \<in> {0, 1, 2, 3, 4, 5, 6, 7, 8, 9}"
  by simp arith

lemma digit_char:
  assumes "d < 10"
  shows "is_digit (''0123456789'' ! d) \<and> digit_value (''0123456789'' ! d) = d
         \<and> ((''0123456789'' ! d = CHR ''0'') = (d = 0))"
  using below_10 [OF assms] by (auto simp: is_digit_def digit_value_def)




lemma digits_first:
  "\<exists>d ds. digits n = d # ds \<and> is_digit d \<and> ((d = CHR ''0'') = (n = 0)) \<and> (n = 0 \<longrightarrow> ds = [])"
proof (induction n rule: digits.induct)
  case (1 n)
  show ?case
  proof (cases "n < 10")
    case True
    then show ?thesis by (simp add: digits.simps [of n] digit_char)
  next
    case False
    then have "n div 10 \<noteq> 0" by simp
    with False "1" obtain d ds where "digits (n div 10) = d # ds" "is_digit d"
      "d \<noteq> CHR ''0''" by auto
    with False show ?thesis by (simp add: digits.simps [of n])
  qed
qed

lemma is_digit_simps [simp]:
  "\<not> is_digit CHR ''-''" "\<not> is_digit CHR '',''" "\<not> is_digit CHR '']''" "\<not> is_digit CHR ''}''"
  "\<not> is_digit CHR 0x0A" "\<not> is_digit CHR '' ''"
  by (simp_all add: is_digit_def)





subsection \<open>White space and delimiters\<close>










lemma encode_first:
  "\<exists>c cs. encode ind lvl v = c # cs \<and> \<not> is_ws c \<and> c \<noteq> CHR '']'' \<and> c \<noteq> CHR ''}''"
proof (cases v)
  case (JInt i)
  show ?thesis
  proof (cases "i < 0")
    case True
    with JInt show ?thesis by (simp add: show_int_def is_ws_def)
  next
    case False
    from digits_first [of "nat i"] obtain d ds where "digits (nat i) = d # ds" "is_digit d"
      by blast
    with False JInt show ?thesis by (auto simp: show_int_def is_ws_def is_digit_def)
  qed
qed (auto simp: is_ws_def encode_string_def)


lemma not_closing_encode:
  "take 1 (encode ind lvl v @ s) \<noteq> '']''" "take 1 (encode ind lvl v @ s) \<noteq> ''}''"
  using encode_first [of ind lvl v] by auto


subsection \<open>Dictionaries\<close>




subsection \<open>Arrays and objects\<close>





subsection \<open>Values\<close>








subsection \<open>The bound on the recursion\<close>




subsection \<open>Documents\<close>



section \<open>Properties of the chat history\<close>




end
